theory Spec2Isabelle
  imports Complex_Main "HOL-Library.Sublist"
begin

section \<open>One-time verification codes (utils.py)\<close>

text \<open>
  \<^verbatim>\<open>
  def generate_verification_code(length: int = 8) -> str:
      characters = string.ascii_uppercase + string.digits
      return ''.join(random.choice(characters) for _ in range(length))
  \<close>
  The pseudo-random generator is the only input that is not an argument. It is made
  explicit as a draw function \<open>rnd\<close>: \<open>rnd i\<close> is the raw value behind the \<open>i\<close>-th call of
  \<open>random.choice\<close>, which indexes the sequence with it reduced modulo the length of the
  sequence. \<open>range(length)\<close> is empty for a negative \<open>length\<close>, which \<open>nat\<close> renders.
\<close>

definition ascii_uppercase :: string where
  "ascii_uppercase = ''ABCDEFGHIJKLMNOPQRSTUVWXYZ''"

definition digits :: string where
  "digits = ''0123456789''"

definition characters :: string where
  "characters = ascii_uppercase @ digits"

definition random_choice :: "'a list \<Rightarrow> nat \<Rightarrow> 'a" where
  "random_choice seq r = seq ! (r mod length seq)"

definition generate_verification_code :: "int \<Rightarrow> (nat \<Rightarrow> nat) \<Rightarrow> string" where
  "generate_verification_code len rnd =
     map (\<lambda>i. random_choice characters (rnd i)) [0..<nat len]"

text \<open>The call site in \<open>bot.py\<close> passes no argument, so the default length 8 applies.\<close>

definition default_code_length :: int where
  "default_code_length = 8"

section \<open>Characters and strings (Python \<open>str\<close>)\<close>

text \<open>
  A text is a list of 8-bit characters, that is, a Python string of code points below
  256. The character classes below are those of Python 3 on that range.
\<close>

definition ord :: "char \<Rightarrow> nat" where
  "ord c = of_char c"

definition in_range :: "char \<Rightarrow> char \<Rightarrow> char \<Rightarrow> bool" where
  "in_range lo hi c = (ord lo \<le> ord c \<and> ord c \<le> ord hi)"

definition is_ascii_alpha :: "char \<Rightarrow> bool" where
  "is_ascii_alpha c = (in_range CHR ''A'' CHR ''Z'' c \<or> in_range CHR ''a'' CHR ''z'' c)"

definition is_digit :: "char \<Rightarrow> bool" where
  "is_digit c = in_range CHR ''0'' CHR ''9'' c"

text \<open>\<open>\s\<close> of a Unicode pattern: TAB..CR, FS..US, space, NEL and NBSP.\<close>

definition is_space :: "char \<Rightarrow> bool" where
  "is_space c = (in_range CHR 0x09 CHR 0x0D c \<or> in_range CHR 0x1C CHR 0x20 c
                 \<or> c = CHR 0x85 \<or> c = CHR 0xA0)"

text \<open>\<open>str.lower()\<close>: the ASCII capitals and the Latin-1 capitals (all of 0xC0..0xDE but
  the multiplication sign) move up by 32.\<close>

definition lower_char :: "char \<Rightarrow> char" where
  "lower_char c =
     (if in_range CHR ''A'' CHR ''Z'' c \<or> (in_range CHR 0xC0 CHR 0xDE c \<and> c \<noteq> CHR 0xD7)
      then char_of (ord c + 32) else c)"

definition lower :: "string \<Rightarrow> string" where
  "lower s = map lower_char s"

definition startswith :: "string \<Rightarrow> string \<Rightarrow> bool" where
  "startswith s p = prefix p s"

definition endswith :: "string \<Rightarrow> string \<Rightarrow> bool" where
  "endswith s p = suffix p s"

definition rstrip :: "string \<Rightarrow> string \<Rightarrow> string" where
  "rstrip chars s = rev (dropWhile (\<lambda>c. c \<in> set chars) (rev s))"

section \<open>Regular expressions of utils.py\<close>

text \<open>
  The three patterns of \<open>utils.py\<close> that the router depends on are built from literals,
  optional groups, an alternation of literals and greedy character-class runs. Each
  matcher takes the text from the current position and returns the text left after the
  match, or \<open>None\<close>. A continuation argument renders backtracking: an optional group or
  an alternative that matches is given up when the rest of the pattern fails after it.
\<close>

fun strip_literal :: "string \<Rightarrow> string \<Rightarrow> string option" where
  "strip_literal [] s = Some s"
| "strip_literal (p # ps) [] = None"
| "strip_literal (p # ps) (c # cs) = (if p = c then strip_literal ps cs else None)"

text \<open>\<open>(?:a|b|c)\<close> followed by the continuation \<open>k\<close>: the alternatives in order.\<close>

fun alt :: "string list \<Rightarrow> (string \<Rightarrow> string option) \<Rightarrow> string \<Rightarrow> string option" where
  "alt [] k s = None"
| "alt (l # ls) k s =
     (case strip_literal l s of
        Some r \<Rightarrow> (case k r of Some e \<Rightarrow> Some e | None \<Rightarrow> alt ls k s)
      | None \<Rightarrow> alt ls k s)"

text \<open>\<open>(?:a|b)?\<close> followed by \<open>k\<close>: greedy, so the group is tried first.\<close>

definition opt_alt :: "string list \<Rightarrow> (string \<Rightarrow> string option) \<Rightarrow> string \<Rightarrow> string option"
  where
  "opt_alt ls k s = (case alt ls k s of Some e \<Rightarrow> Some e | None \<Rightarrow> k s)"

text \<open>\<open>[class]+\<close> followed by \<open>k\<close>, for a \<open>k\<close> that cannot start with a character of the
  class (or is the end of the pattern): the longest run, of at least one character.\<close>

definition plus_class :: "(char \<Rightarrow> bool) \<Rightarrow> (string \<Rightarrow> string option) \<Rightarrow> string \<Rightarrow> string option"
  where
  "plus_class cls k s = (if takeWhile cls s = [] then None else k (dropWhile cls s))"

definition lit :: "string \<Rightarrow> (string \<Rightarrow> string option) \<Rightarrow> string \<Rightarrow> string option" where
  "lit l k s = (case strip_literal l s of Some r \<Rightarrow> k r | None \<Rightarrow> None)"

text \<open>\<open>re.search(pattern, text).group(0)\<close>: the match at the leftmost position that has
  one. Every pattern here consumes at least one character, so the end of the text has no
  match.\<close>

fun re_search :: "(string \<Rightarrow> string option) \<Rightarrow> string \<Rightarrow> string option" where
  "re_search m [] = None"
| "re_search m (c # cs) =
     (case m (c # cs) of
        Some rest \<Rightarrow> Some (take (length (c # cs) - length rest) (c # cs))
      | None \<Rightarrow> re_search m cs)"

text \<open>\<open>[A-Za-z0-9_-]\<close> and \<open>[A-Za-z0-9._]\<close>.\<close>

definition shortcode_char :: "char \<Rightarrow> bool" where
  "shortcode_char c = (is_ascii_alpha c \<or> is_digit c \<or> c = CHR ''_'' \<or> c = CHR ''-'')"

definition story_user_char :: "char \<Rightarrow> bool" where
  "story_user_char c = (is_ascii_alpha c \<or> is_digit c \<or> c = CHR ''.'' \<or> c = CHR ''_'')"

text \<open>
  \<^verbatim>\<open>(?:https?://)?(?:www\.)?instagram\.com/(?:p|reel|tv)/([A-Za-z0-9_-]+)\<close> and
  \<^verbatim>\<open>(?:https?://)?(?:www\.)?instagram\.com/stories/([A-Za-z0-9._]+)/(\d+)\<close>
\<close>

definition post_pattern :: "string \<Rightarrow> string option" where
  "post_pattern =
     opt_alt [''https://'', ''http://'']
       (opt_alt [''www.'']
          (lit ''instagram.com/''
             (alt [''p'', ''reel'', ''tv''] (lit ''/'' (plus_class shortcode_char Some)))))"

definition story_pattern :: "string \<Rightarrow> string option" where
  "story_pattern =
     opt_alt [''https://'', ''http://'']
       (opt_alt [''www.'']
          (lit ''instagram.com/stories/''
             (plus_class story_user_char (lit ''/'' (plus_class is_digit Some)))))"

definition extract_instagram_url :: "string \<Rightarrow> string option" where
  "extract_instagram_url text =
     (case re_search post_pattern text of
        Some u \<Rightarrow> Some u
      | None \<Rightarrow> re_search story_pattern text)"

text \<open>\<^verbatim>\<open>https?://[^\s<>"{}|\\^`\[\]]+\<close>, then \<^verbatim>\<open>rstrip('.,;:!?')\<close>.\<close>

definition url_char :: "char \<Rightarrow> bool" where
  "url_char c =
     (\<not> is_space c \<and>
      c \<notin> {CHR ''<'', CHR ''>'', CHR 0x22, CHR ''{'', CHR ''}'', CHR ''|'', CHR 0x5C,
              CHR ''^'', CHR 0x60, CHR ''['', CHR '']''})"

definition url_pattern :: "string \<Rightarrow> string option" where
  "url_pattern = alt [''https://'', ''http://''] (plus_class url_char Some)"

definition extract_media_url :: "string \<Rightarrow> string option" where
  "extract_media_url text =
     (case re_search url_pattern text of
        Some url \<Rightarrow> Some (rstrip ''.,;:!?'' url)
      | None \<Rightarrow> None)"

section \<open>Host names (utils.py, over \<open>urllib.parse.urlparse\<close>)\<close>

datatype exn = ValueError | TypeError | TelegramError | FileNotFoundError

text \<open>
  The \<open>netloc\<close> of \<open>urlparse\<close>, after \<open>urlsplit\<close> of CPython 3.11: leading C0 controls and
  spaces are dropped and TAB, CR and LF removed; a scheme is split off at the first colon
  when the text before it starts with an ASCII letter and has scheme characters only; a
  network location follows exactly when the rest starts with two slashes, and runs up to
  the first of \<open>/\<close>, \<open>?\<close> and \<open>#\<close>. A network location with one square bracket but not the
  other raises \<open>ValueError\<close>, and so does one with both when the text between them is
  neither an IPv6 address nor an IPvFuture address. The last check of \<open>urlsplit\<close>, on
  characters that NFKC normalisation turns into delimiters, never raises on code points
  below 256.
\<close>

text \<open>\<open>s.split(c)\<close>\<close>

fun split_on :: "char \<Rightarrow> string \<Rightarrow> string list" where
  "split_on c [] = [[]]"
| "split_on c (x # xs) =
     (if x = c then [] # split_on c xs
      else (case split_on c xs of [] \<Rightarrow> [[x]] | p # ps \<Rightarrow> (x # p) # ps))"

definition is_hex :: "char \<Rightarrow> bool" where
  "is_hex c = (is_digit c \<or> in_range CHR ''a'' CHR ''f'' c \<or> in_range CHR ''A'' CHR ''F'' c)"

definition decimal_value :: "string \<Rightarrow> nat" where
  "decimal_value s = foldl (\<lambda>a c. 10 * a + (ord c - 48)) 0 s"

text \<open>\<open>ipaddress.IPv4Address(s)\<close> does not raise: four octets, each of one to three ASCII
  digits without a leading zero and at most 255.\<close>

definition valid_octet :: "string \<Rightarrow> bool" where
  "valid_octet octet =
     (octet \<noteq> [] \<and> list_all is_digit octet \<and> length octet \<le> 3
      \<and> \<not> (octet \<noteq> ''0'' \<and> hd octet = CHR ''0'') \<and> decimal_value octet \<le> 255)"

definition is_ipv4 :: "string \<Rightarrow> bool" where
  "is_ipv4 s =
     (CHR ''/'' \<notin> set s \<and> s \<noteq> []
      \<and> length (split_on CHR ''.'' s) = 4 \<and> list_all valid_octet (split_on CHR ''.'' s))"

text \<open>\<open>_parse_hextet\<close> does not raise (\<open>int('', 16)\<close> raises).\<close>

definition valid_hextet :: "string \<Rightarrow> bool" where
  "valid_hextet h = (list_all is_hex h \<and> length h \<le> 4 \<and> h \<noteq> [])"

text \<open>
  \<open>IPv6Address._ip_int_from_string\<close> on the parts between the colons, after an IPv4
  suffix has been replaced by its two hextets: at most nine parts; at most one empty
  part that is not at an end (the \<open>::\<close>); with it, an empty first or last part only
  next to it, and fewer than eight other parts; without it, exactly eight parts; and
  every part that is read a hextet.
\<close>

definition ipv6_parts_ok :: "string list \<Rightarrow> bool" where
  "ipv6_parts_ok parts =
     (if length parts > 9 then False
      else case filter (\<lambda>i. parts ! i = []) [1..<length parts - 1] of
             [] \<Rightarrow> length parts = 8 \<and> hd parts \<noteq> [] \<and> last parts \<noteq> []
                   \<and> list_all valid_hextet parts
           | [skip_index] \<Rightarrow>
               (let parts_hi = (if hd parts = [] then skip_index - 1 else skip_index);
                    parts_lo = (if last parts = [] then length parts - skip_index - 1 - 1
                                else length parts - skip_index - 1)
                in if hd parts = [] \<and> parts_hi \<noteq> 0 then False
                   else if last parts = [] \<and> parts_lo \<noteq> 0 then False
                   else if 8 - (int parts_hi + int parts_lo) < 1 then False
                   else list_all valid_hextet (take parts_hi parts)
                        \<and> list_all valid_hextet (drop (length parts - parts_lo) parts))
           | _ \<Rightarrow> False)"

text \<open>\<open>ipaddress.IPv6Address(s)\<close> does not raise: no slash, a scope id after \<open>%\<close> that is
  not empty and has no \<open>%\<close>, at least three parts, and a last part with a dot an IPv4
  address (its two hextets, always valid, are written \<open>0\<close> here).\<close>

definition is_ipv6 :: "string \<Rightarrow> bool" where
  "is_ipv6 s =
     (let addr = takeWhile (\<lambda>c. c \<noteq> CHR ''%'') s;
          scope_id = drop (length addr + 1) s;
          parts = split_on CHR '':'' addr
      in if CHR ''/'' \<in> set s then False
         else if CHR ''%'' \<in> set s \<and> (scope_id = [] \<or> CHR ''%'' \<in> set scope_id) then False
         else if addr = [] then False
         else if length parts < 3 then False
         else if CHR ''.'' \<in> set (last parts)
         then is_ipv4 (last parts) \<and> ipv6_parts_ok (butlast parts @ [''0'', ''0''])
         else ipv6_parts_ok parts)"

text \<open>\<open>_check_bracketed_host\<close> does not raise. The IPvFuture pattern is
  \<^verbatim>\<open>\Av[a-fA-F0-9]+\..+\Z\<close>.\<close>

definition is_ipvfuture :: "string \<Rightarrow> bool" where
  "is_ipvfuture hostname =
     (case hostname of
        [] \<Rightarrow> False
      | v # rest \<Rightarrow>
          v = CHR ''v'' \<and> takeWhile is_hex rest \<noteq> []
          \<and> (case dropWhile is_hex rest of
                [] \<Rightarrow> False
              | d # tail \<Rightarrow> d = CHR ''.'' \<and> tail \<noteq> [] \<and> CHR 0x0A \<notin> set tail))"

definition check_bracketed_host :: "string \<Rightarrow> bool" where
  "check_bracketed_host hostname =
     (if startswith hostname ''v'' then is_ipvfuture hostname
      else \<not> is_ipv4 hostname \<and> is_ipv6 hostname)"

text \<open>\<^verbatim>\<open>netloc.partition('[')[2].partition(']')[0]\<close>\<close>

definition bracketed_host :: "string \<Rightarrow> string" where
  "bracketed_host netloc =
     takeWhile (\<lambda>c. c \<noteq> CHR '']'') (drop 1 (dropWhile (\<lambda>c. c \<noteq> CHR ''['') netloc))"

definition scheme_char :: "char \<Rightarrow> bool" where
  "scheme_char c = (is_ascii_alpha c \<or> is_digit c \<or> c \<in> {CHR ''+'', CHR ''-'', CHR ''.''})"

definition split_scheme :: "string \<Rightarrow> string option" where
  "split_scheme url =
     (let pre = takeWhile (\<lambda>c. c \<noteq> CHR '':'') url in
      if length pre < length url \<and> pre \<noteq> [] \<and> is_ascii_alpha (hd pre) \<and> list_all scheme_char pre
      then Some (drop (length pre + 1) url) else None)"

definition urlparse_netloc :: "string \<Rightarrow> exn + string" where
  "urlparse_netloc url0 =
     (let url = filter (\<lambda>c. c \<notin> {CHR 0x09, CHR 0x0A, CHR 0x0D})
                  (dropWhile (\<lambda>c. ord c \<le> 32) url0);
          rest = (case split_scheme url of Some r \<Rightarrow> r | None \<Rightarrow> url)
      in if take 2 rest = ''//''
         then (let netloc = takeWhile (\<lambda>c. c \<notin> {CHR ''/'', CHR ''?'', CHR ''#''}) (drop 2 rest)
               in if (CHR ''['' \<in> set netloc) \<noteq> (CHR '']'' \<in> set netloc)
                  then Inl ValueError
                  else if CHR ''['' \<in> set netloc \<and> CHR '']'' \<in> set netloc
                          \<and> \<not> check_bracketed_host (bracketed_host netloc)
                  then Inl ValueError
                  else Inr netloc)
         else Inr [])"

definition strip_www :: "string \<Rightarrow> string" where
  "strip_www hostname = (if startswith hostname ''www.'' then drop 4 hostname else hostname)"

definition with_scheme :: "string \<Rightarrow> string" where
  "with_scheme url = (if startswith url ''http'' then url else ''https://'' @ url)"

definition is_instagram_url :: "string \<Rightarrow> bool" where
  "is_instagram_url url =
     (if url = [] then False
      else case urlparse_netloc (with_scheme url) of
             Inl e \<Rightarrow> False
           | Inr netloc \<Rightarrow> strip_www (lower netloc) = ''instagram.com'')"

definition supported_domains :: "string list" where
  "supported_domains =
     [''youtube.com'', ''youtu.be'', ''soundcloud.com'', ''twitter.com'', ''x.com'',
      ''tiktok.com'', ''vimeo.com'', ''dailymotion.com'', ''twitch.tv'', ''facebook.com'',
      ''fb.watch'', ''reddit.com'', ''streamable.com'', ''bandcamp.com'', ''mixcloud.com'',
      ''bilibili.com'']"

definition is_ytdlp_supported_url :: "string \<Rightarrow> bool" where
  "is_ytdlp_supported_url url =
     (if url = [] then False
      else case urlparse_netloc (with_scheme url) of
             Inl e \<Rightarrow> False
           | Inr netloc \<Rightarrow>
               (let hostname = strip_www (lower netloc) in
                if hostname \<in> set supported_domains then True
                else list_ex (\<lambda>domain. endswith hostname (CHR ''.'' # domain)) supported_domains))"

section \<open>Routing of text messages (bot.py, \<open>message_router\<close>)\<close>

text \<open>
  The first five branches of \<open>message_router\<close> compare the text with the captions of the
  menu buttons. Each caption has code points above 255, so that no text of this model
  equals one, and the model starts at the sixth branch. The handler that the router calls
  is its result.
\<close>

datatype route = DownloadHandler | YtdlpDownloadHandler | InvalidCommand

definition message_router :: "string \<Rightarrow> route" where
  "message_router text =
     (if extract_instagram_url text \<noteq> None then DownloadHandler
      else if is_ytdlp_supported_url (case extract_media_url text of Some u \<Rightarrow> u | None \<Rightarrow> [])
      then YtdlpDownloadHandler
      else (case extract_media_url text of
              Some url \<Rightarrow> if url \<noteq> [] then YtdlpDownloadHandler else InvalidCommand
            | None \<Rightarrow> InvalidCommand))"

section \<open>Rate limiter (utils.py, \<open>RateLimiter\<close>)\<close>

text \<open>
  \<open>datetime.now().timestamp()\<close> is the argument \<open>now\<close>: a number of seconds, taken as a
  real number (the rounding of the floating-point subtraction is not modelled).
  \<open>int(x)\<close> of a float truncates toward zero.
\<close>

record RateLimiter =
  last_request :: "int \<rightharpoonup> real"

definition int_trunc :: "real \<Rightarrow> int" where
  "int_trunc x = (if 0 \<le> x then \<lfloor>x\<rfloor> else \<lceil>x\<rceil>)"

definition stamp :: "real \<Rightarrow> RateLimiter \<Rightarrow> int \<Rightarrow> RateLimiter" where
  "stamp now rl user_id = rl\<lparr>last_request := (last_request rl)(user_id \<mapsto> now)\<rparr>"

definition can_proceed :: "real \<Rightarrow> RateLimiter \<Rightarrow> int \<Rightarrow> int \<Rightarrow> (bool \<times> int) \<times> RateLimiter"
  where
  "can_proceed now rl user_id cooldown =
     (case last_request rl user_id of
        Some t \<Rightarrow>
          (let time_passed = now - t in
           if time_passed < of_int cooldown
           then ((False, int_trunc (of_int cooldown - time_passed)), rl)
           else ((True, 0), stamp now rl user_id))
      | None \<Rightarrow> ((True, 0), stamp now rl user_id))"

section \<open>Formats and quality menu (downloader.py, keyboards.py)\<close>

text \<open>\<open>str(n)\<close> of an integer, for the label \<^verbatim>\<open>f"{height}p"\<close>.\<close>

definition digit_char :: "nat \<Rightarrow> char" where
  "digit_char d = char_of (48 + d)"

function str_nat :: "nat \<Rightarrow> string" where
  "str_nat n = (if n < 10 then [digit_char n] else str_nat (n div 10) @ [digit_char (n mod 10)])"
  by pat_completeness auto
termination
  by (relation "measure id") auto

declare str_nat.simps [simp del]

definition str_int :: "int \<Rightarrow> string" where
  "str_int i = (if i < 0 then CHR ''-'' # str_nat (nat (- i)) else str_nat (nat i))"

text \<open>
  A number of an info dictionary of yt-dlp: \<open>None\<close>, an \<open>int\<close> or a \<open>float\<close> (a duration
  comes as any of them). Its truth value is that of Python.
\<close>

datatype number = NoneValue | IntValue int | FloatValue real

definition truthy :: "number \<Rightarrow> bool" where
  "truthy v = (case v of NoneValue \<Rightarrow> False | IntValue n \<Rightarrow> n \<noteq> 0 | FloatValue x \<Rightarrow> x \<noteq> 0)"

text \<open>
  \<open>format_duration\<close> of \<open>utils.py\<close>. \<open>divmod\<close> accepts a float, and the format code
  \<^verbatim>\<open>02d\<close> of the result then raises \<open>ValueError\<close>; \<open>divmod\<close> of \<open>None\<close> raises \<open>TypeError\<close>.
  \<^verbatim>\<open>f"{n:02d}"\<close> pads a single digit with a zero.
\<close>

definition pad2 :: "int \<Rightarrow> string" where
  "pad2 n = (if length (str_int n) < 2 then CHR ''0'' # str_int n else str_int n)"

definition format_duration :: "number \<Rightarrow> exn + string" where
  "format_duration seconds =
     (case seconds of
        NoneValue \<Rightarrow> Inl TypeError
      | FloatValue x \<Rightarrow> Inl ValueError
      | IntValue n \<Rightarrow>
          (let hours = n div 3600; remainder = n mod 3600;
               minutes = remainder div 60; secs = remainder mod 60
           in Inr (if hours > 0 then pad2 hours @ '':'' @ pad2 minutes @ '':'' @ pad2 secs
                   else pad2 minutes @ '':'' @ pad2 secs)))"

text \<open>
  \<^verbatim>\<open>format_duration(d) if d else <unknown>\<close>, as \<open>bot.py\<close> prepares the duration of a
  caption; \<open>None\<close> stands for the text for an unknown duration. The view and like counts
  are prepared in the same way with \<open>format_number\<close>, which compares, divides and prints
  its argument and raises on no \<open>int\<close> and no \<open>float\<close>; its text is not modelled.
\<close>

definition duration_str :: "number \<Rightarrow> exn + string option" where
  "duration_str d =
     (if truthy d
      then (case format_duration d of Inl e \<Rightarrow> Inl e | Inr s \<Rightarrow> Inr (Some s))
      else Inr None)"

text \<open>\<^verbatim>\<open>title[:50]\<close>, which raises \<open>TypeError\<close> on the title \<open>None\<close>.\<close>

definition title_prefix :: "string option \<Rightarrow> exn + string" where
  "title_prefix t = (case t of None \<Rightarrow> Inl TypeError | Some s \<Rightarrow> Inr (take 50 s))"

text \<open>
  A format of yt-dlp's \<open>info['formats']\<close>, by the keys that \<open>_parse_formats\<close> reads. A key
  read with a default (\<open>fmt.get(key, default)\<close>) holds the default when it is absent.
  \<open>height\<close> is \<open>None\<close> when yt-dlp gives the key with the value \<open>None\<close>; an empty
  \<open>fmt_url\<close> or \<open>format_note\<close> stands for an absent, \<open>None\<close> or empty value, which the
  code does not tell apart.
\<close>

record format =
  fmt_url :: string
  format_id :: string
  ext :: string
  height :: "int option"
  width :: "int option"
  filesize :: int
  filesize_approx :: int
  vcodec :: string
  acodec :: string
  format_note :: string

record parsed_format =
  p_format_id :: string
  p_ext :: string
  quality :: string
  p_height :: "int option"
  p_width :: "int option"
  p_filesize :: int
  p_has_video :: bool
  p_has_audio :: bool

text \<open>Truthiness of \<open>height\<close>: \<open>None\<close> and 0 are false.\<close>

definition truthy_height :: "int option \<Rightarrow> bool" where
  "truthy_height h = (case h of None \<Rightarrow> False | Some n \<Rightarrow> n \<noteq> 0)"

definition quality_label :: "format \<Rightarrow> string" where
  "quality_label fmt =
     (if truthy_height (height fmt) then str_int (the (height fmt)) @ ''p''
      else if format_note fmt \<noteq> [] then format_note fmt
      else format_id fmt)"

definition parsed_of :: "format \<Rightarrow> parsed_format" where
  "parsed_of fmt =
     \<lparr>p_format_id = format_id fmt, p_ext = ext fmt, quality = quality_label fmt,
      p_height = height fmt, p_width = width fmt,
      p_filesize = (if filesize fmt \<noteq> 0 then filesize fmt else filesize_approx fmt),
      p_has_video = (vcodec fmt \<noteq> ''none''), p_has_audio = (acodec fmt \<noteq> ''none'')\<rparr>"

text \<open>The \<open>for\<close> loop of \<open>_parse_formats\<close>, with its two accumulators.\<close>

fun parse_loop :: "format list \<Rightarrow> parsed_format list \<Rightarrow> string set \<Rightarrow> parsed_format list" where
  "parse_loop [] parsed seen_qualities = parsed"
| "parse_loop (fmt # fmts) parsed seen_qualities =
     (if fmt_url fmt = [] then parse_loop fmts parsed seen_qualities
      else if vcodec fmt = ''none'' \<and> acodec fmt \<noteq> ''none''
      then parse_loop fmts parsed seen_qualities
      else if quality_label fmt \<in> seen_qualities then parse_loop fmts parsed seen_qualities
      else parse_loop fmts (parsed @ [parsed_of fmt]) (insert (quality_label fmt) seen_qualities))"

text \<open>
  \<^verbatim>\<open>parsed.sort(key=lambda x: x.get('height', 0), reverse=True)\<close> is a stable sort by
  descending height. The key \<open>height\<close> is always present in an entry, so the default 0
  of the lambda never applies and a height \<open>None\<close> is the sort key itself: sorting two
  or more entries then compares \<open>None\<close> and raises \<open>TypeError\<close>, and a single entry is
  compared with nothing.
\<close>

definition sort_key_height :: "parsed_format \<Rightarrow> int" where
  "sort_key_height x = (case p_height x of None \<Rightarrow> 0 | Some h \<Rightarrow> h)"

definition parse_formats :: "format list \<Rightarrow> exn + parsed_format list" where
  "parse_formats formats =
     (let parsed = parse_loop formats [] {} in
      if 2 \<le> length parsed \<and> list_ex (\<lambda>x. p_height x = None) parsed then Inl TypeError
      else Inr (take 8 (sort_key (\<lambda>x. - sort_key_height x) parsed)))"

text \<open>
  The menu of \<open>keyboards.download_options\<close>. A caption is Persian text with an emoji;
  the datatype names the button instead, and \<open>Tier\<close> carries the ASCII part of the caption.
\<close>

datatype caption =
    BestQuality | Tier string | AudioOnlyMP3 | Cancel | CheckVerification | TryAgain | Back

record button =
  caption :: caption
  callback_data :: string

definition download_options :: "string \<Rightarrow> bool \<Rightarrow> bool \<Rightarrow> button list list" where
  "download_options url has_audio has_video =
     (if has_video
      then [[\<lparr>caption = BestQuality, callback_data = ''dl:best:'' @ take 50 url\<rparr>],
            [\<lparr>caption = Tier ''720p'', callback_data = ''dl:720:'' @ take 50 url\<rparr>,
             \<lparr>caption = Tier ''480p'', callback_data = ''dl:480:'' @ take 50 url\<rparr>],
            [\<lparr>caption = Tier ''360p'', callback_data = ''dl:360:'' @ take 50 url\<rparr>,
             \<lparr>caption = Tier ''240p'', callback_data = ''dl:240:'' @ take 50 url\<rparr>]]
      else [])
     @ (if has_audio
        then [[\<lparr>caption = AudioOnlyMP3, callback_data = ''dl:audio:'' @ take 50 url\<rparr>]]
        else [])
     @ [[\<lparr>caption = Cancel, callback_data = ''cancel_download''\<rparr>]]"

text \<open>
  \<open>handle_quality_selection\<close> reads the quality back from the callback data:
  \<^verbatim>\<open>data.split(":", 2)[1]\<close> for data that start with \<^verbatim>\<open>dl:\<close>.
\<close>

definition selected_quality :: "string \<Rightarrow> string option" where
  "selected_quality data =
     (if data = ''cancel_download'' then None
      else if startswith data ''dl:''
      then Some (takeWhile (\<lambda>c. c \<noteq> CHR '':'') (drop 3 data))
      else None)"

text \<open>
  The format selector and the audio extraction that \<open>download_with_ytdlp\<close> derives from
  its arguments (\<open>download_with_quality\<close> passes the quality alone).
\<close>

definition ytdlp_format :: "string \<Rightarrow> string \<times> bool" where
  "ytdlp_format q =
     (if q = ''best'' then (''bestvideo[filesize<50M]+bestaudio/best[filesize<50M]/best'', False)
      else if q = ''720'' then (''bestvideo[height<=720]+bestaudio/best[height<=720]'', False)
      else if q = ''480'' then (''bestvideo[height<=480]+bestaudio/best[height<=480]'', False)
      else if q = ''360'' then (''bestvideo[height<=360]+bestaudio/best[height<=360]'', False)
      else if q = ''240'' then (''bestvideo[height<=240]+bestaudio/best[height<=240]'', False)
      else if q = ''audio'' then (''bestaudio/best'', True)
      else (''best[filesize<50M]/best'', False))"

definition verification_check :: "int \<Rightarrow> button list list" where
  "verification_check verification_id =
     [[\<lparr>caption = CheckVerification,
        callback_data = ''check_verification:'' @ str_int verification_id\<rparr>],
      [\<lparr>caption = TryAgain, callback_data = ''add_account''\<rparr>],
      [\<lparr>caption = Cancel, callback_data = ''back_to_menu''\<rparr>]]"

definition back_button :: "button list list" where
  "back_button = [[\<lparr>caption = Back, callback_data = ''back_to_menu''\<rparr>]]"

section \<open>Persistence (database.py)\<close>

text \<open>
  The tables that the handlers below read and write, each as the list of its rows in
  insertion order (\<open>users\<close>, keyed by its primary key, as a map). Time stamps are seconds
  as real numbers. The SQL statements are taken to succeed.
\<close>

record user_row =
  is_banned :: int
  download_count :: int

record instagram_account =
  acc_id :: int
  acc_user_id :: int
  instagram_username :: string
  is_verified :: int
  acc_verification_code :: string
  code_expires_at :: real
  created_at :: real

record pending_verification =
  pv_id :: int
  pv_user_id :: int
  verification_code :: string
  pv_instagram_username :: string
  expires_at :: real

record download_row =
  dl_user_id :: int
  media_type :: string
  media_url :: string
  dl_instagram_username :: "string option"
  file_size :: int

record database =
  users :: "int \<rightharpoonup> user_row"
  instagram_accounts :: "instagram_account list"
  pending_verifications :: "pending_verification list"
  downloads :: "download_row list"

text \<open>\<^verbatim>\<open>INSERT ... ON CONFLICT(user_id) DO UPDATE SET username, first_name\<close>: a new row
  has the column defaults, and an existing one keeps its flags and counter.\<close>

definition add_user :: "database \<Rightarrow> int \<Rightarrow> database" where
  "add_user d user_id =
     (case users d user_id of
        Some u \<Rightarrow> d
      | None \<Rightarrow> d\<lparr>users := (users d)(user_id \<mapsto> \<lparr>is_banned = 0, download_count = 0\<rparr>)\<rparr>)"

definition is_user_banned :: "database \<Rightarrow> int \<Rightarrow> bool" where
  "is_user_banned d user_id = (case users d user_id of Some u \<Rightarrow> is_banned u = 1 | None \<Rightarrow> False)"

text \<open>\<^verbatim>\<open>UPDATE users SET download_count = download_count + 1 WHERE user_id = ?\<close>\<close>

definition increment_download_count :: "database \<Rightarrow> int \<Rightarrow> database" where
  "increment_download_count d user_id =
     (case users d user_id of
        Some u \<Rightarrow> d\<lparr>users := (users d)(user_id \<mapsto> u\<lparr>download_count := download_count u + 1\<rparr>)\<rparr>
      | None \<Rightarrow> d)"

definition add_download :: "database \<Rightarrow> int \<Rightarrow> string \<Rightarrow> string \<Rightarrow> string option \<Rightarrow> int \<Rightarrow> database"
  where
  "add_download d user_id mtype url username fsize =
     d\<lparr>downloads := downloads d @
          [\<lparr>dl_user_id = user_id, media_type = mtype, media_url = url,
            dl_instagram_username = username, file_size = fsize\<rparr>]\<rparr>"

text \<open>\<^verbatim>\<open>SELECT COUNT(*) ... WHERE user_id = ? AND is_verified = 1\<close>, then \<open>count > 0\<close>.\<close>

definition has_verified_account :: "database \<Rightarrow> int \<Rightarrow> bool" where
  "has_verified_account d user_id =
     (0 < length (filter (\<lambda>a. acc_user_id a = user_id \<and> is_verified a = 1) (instagram_accounts d)))"

text \<open>\<^verbatim>\<open>SELECT * ... WHERE user_id = ? ORDER BY created_at DESC\<close> (rows with equal stamps in
  insertion order).\<close>

definition get_user_instagram_accounts :: "database \<Rightarrow> int \<Rightarrow> instagram_account list" where
  "get_user_instagram_accounts d user_id =
     sort_key (\<lambda>a. - created_at a) (filter (\<lambda>a. acc_user_id a = user_id) (instagram_accounts d))"

definition verify_instagram_account :: "database \<Rightarrow> int \<Rightarrow> database" where
  "verify_instagram_account d account_id =
     d\<lparr>instagram_accounts :=
          map (\<lambda>a. if acc_id a = account_id then a\<lparr>is_verified := 1\<rparr> else a) (instagram_accounts d)\<rparr>"

text \<open>\<^verbatim>\<open>SELECT * FROM pending_verifications WHERE id = ?\<close>\<close>

definition get_verification :: "database \<Rightarrow> int \<Rightarrow> pending_verification option" where
  "get_verification d verification_id =
     find (\<lambda>v. pv_id v = verification_id) (pending_verifications d)"

text \<open>\<^verbatim>\<open>DELETE FROM pending_verifications WHERE id = ?\<close>\<close>

definition delete_verification :: "database \<Rightarrow> int \<Rightarrow> database" where
  "delete_verification d verification_id =
     d\<lparr>pending_verifications := filter (\<lambda>v. pv_id v \<noteq> verification_id) (pending_verifications d)\<rparr>"

text \<open>\<^verbatim>\<open>DELETE FROM pending_verifications WHERE expires_at < datetime('now')\<close>; no handler
  calls it.\<close>

definition cleanup_expired_verifications :: "real \<Rightarrow> database \<Rightarrow> database" where
  "cleanup_expired_verifications now d =
     d\<lparr>pending_verifications := filter (\<lambda>v. \<not> expires_at v < now) (pending_verifications d)\<rparr>"

section \<open>Inbox scan (instagram_handler.py, \<open>check_direct_message\<close>)\<close>

text \<open>
  The provider client, by the four calls that the scan makes. Each call returns a value
  or raises (\<open>Inl\<close>). A thread is its id, and a message its text, \<open>None\<close> when it has none.
  The amounts (20 threads, \<open>max_messages\<close> messages) are arguments of the calls.
\<close>

record client =
  direct_threads :: "nat \<Rightarrow> exn + int list"
  direct_messages :: "int \<Rightarrow> nat \<Rightarrow> exn + string option list"
  direct_pending_inbox :: "exn + int list"
  direct_thread_approve :: "int \<Rightarrow> exn + unit"

text \<open>\<open>sub in s\<close> for strings.\<close>

fun contains :: "string \<Rightarrow> string \<Rightarrow> bool" where
  "contains sub [] = (sub = [])"
| "contains sub (c # cs) = (prefix sub (c # cs) \<or> contains sub cs)"

text \<open>\<^verbatim>\<open>message.text and verification_code in message.text\<close>\<close>

definition code_in_message :: "string \<Rightarrow> string option \<Rightarrow> bool" where
  "code_in_message code m = (case m of None \<Rightarrow> False | Some t \<Rightarrow> t \<noteq> [] \<and> contains code t)"

text \<open>The loop over the regular threads: \<open>Inr True\<close> is its \<open>return True\<close>, \<open>Inr False\<close> its
  normal end, \<open>Inl\<close> an exception of \<open>direct_messages\<close>.\<close>

fun scan_threads :: "client \<Rightarrow> string \<Rightarrow> nat \<Rightarrow> int list \<Rightarrow> exn + bool" where
  "scan_threads cl code max_messages [] = Inr False"
| "scan_threads cl code max_messages (t # ts) =
     (case direct_messages cl t max_messages of
        Inl e \<Rightarrow> Inl e
      | Inr ms \<Rightarrow> if list_ex (code_in_message code) ms then Inr True
                  else scan_threads cl code max_messages ts)"

text \<open>The loop over the pending threads: the thread in which the code was found.\<close>

fun scan_pending :: "client \<Rightarrow> string \<Rightarrow> nat \<Rightarrow> int list \<Rightarrow> exn + int option" where
  "scan_pending cl code max_messages [] = Inr None"
| "scan_pending cl code max_messages (t # ts) =
     (case direct_messages cl t max_messages of
        Inl e \<Rightarrow> Inl e
      | Inr ms \<Rightarrow> if list_ex (code_in_message code) ms then Inr (Some t)
                  else scan_pending cl code max_messages ts)"

text \<open>
  The result, and the threads on which \<open>direct_thread_approve\<close> was called (its own
  exception is logged and dropped). \<open>get_client()\<close> is the argument \<open>cl\<close>. Every
  exception ends in one of the two handlers, which return \<open>False\<close> (the inner one by
  falling through to the last statement).
\<close>

definition check_direct_message :: "client option \<Rightarrow> string \<Rightarrow> nat \<Rightarrow> bool \<times> int list" where
  "check_direct_message cl_opt code max_messages =
     (case cl_opt of
        None \<Rightarrow> (False, [])
      | Some cl \<Rightarrow>
          (case direct_threads cl 20 of
             Inl e \<Rightarrow> (False, [])
           | Inr threads \<Rightarrow>
               (case scan_threads cl code max_messages threads of
                  Inl e \<Rightarrow> (False, [])
                | Inr True \<Rightarrow> (True, [])
                | Inr False \<Rightarrow>
                    (case direct_pending_inbox cl of
                       Inl e \<Rightarrow> (False, [])
                     | Inr pending \<Rightarrow>
                         (case scan_pending cl code max_messages pending of
                            Inl e \<Rightarrow> (False, [])
                          | Inr None \<Rightarrow> (False, [])
                          | Inr (Some t) \<Rightarrow> (True, [t]))))))"

section \<open>The bot and its collaborators (bot.py)\<close>

text \<open>
  \<open>messages.py\<close> is not among the sources: each of its constants that the handlers send is
  a constructor of \<open>message\<close>, with the value that the handler formats into it where a
  property depends on it. The error texts that \<open>bot.py\<close> itself passes to
  \<open>DOWNLOAD_FAILED\<close> are the constructors of \<open>reason\<close>.
\<close>

type_synonym path = string

datatype reason = MediaNotFound | DownloadUnsuccessful | CheckTheLink | ErrorText exn

datatype message =
    NO_VERIFIED_ACCOUNT | RATE_LIMIT int | INVALID_LINK | DOWNLOADING | UPLOADING | PROCESSING
  | FILE_TOO_LARGE | DOWNLOAD_FAILED reason | FETCHING_INFO | SELECT_QUALITY
  | VERIFICATION_PENDING | VERIFICATION_SUCCESS string | VERIFICATION_FAILED | CODE_EXPIRED
  | USER_BANNED_MESSAGE | CHANNEL_LOCK_REQUIRED

text \<open>
  What a handler does outside the process, in order: the calls on the chat transport
  (the first nine constructors; an inline keyboard travels with \<open>EditText\<close>) and the calls
  on the two backends and the provider inbox.
\<close>

datatype call =
    Answer
  | ReplyText message
  | EditText message "button list list"
  | DeleteStatus
  | SendChatAction
  | ReplyPhoto path
  | ReplyVideo path
  | ReplyAudio path
  | ReplyDocument path
  | GetMediaInfo string
  | DownloadMedia string
  | DownloadWithYtdlp string string
  | GetVideoInfo string
  | CheckDirectMessage string
  | ApproveThread int

definition is_fetch :: "call \<Rightarrow> bool" where
  "is_fetch c =
     (case c of GetMediaInfo u \<Rightarrow> True | DownloadMedia u \<Rightarrow> True | DownloadWithYtdlp u q \<Rightarrow> True
              | GetVideoInfo u \<Rightarrow> True | _ \<Rightarrow> False)"

definition is_delivery :: "call \<Rightarrow> bool" where
  "is_delivery c =
     (case c of ReplyPhoto p \<Rightarrow> True | ReplyVideo p \<Rightarrow> True | ReplyAudio p \<Rightarrow> True
              | ReplyDocument p \<Rightarrow> True | _ \<Rightarrow> False)"

record media_info =
  mi_media_type :: string
  mi_username :: string
  like_count :: int
  comment_count :: int
  mi_caption :: string

text \<open>The dictionary that \<open>download_with_ytdlp\<close> returns, and the size of the file that
  yt-dlp has written at \<open>filepath\<close>.\<close>

record ytdlp_result =
  filepath :: path
  title :: string
  uploader :: string
  duration :: number
  is_audio :: bool
  written :: nat

text \<open>The info dictionary of the yt-dlp probe and the dictionary that \<open>get_video_info\<close>
  makes of it, by the keys that are read afterwards. A title is \<open>None\<close> when yt-dlp gives
  the key with the value \<open>None\<close>.\<close>

record raw_info =
  ri_title :: "string option"
  ri_duration :: number
  ri_formats :: "format list"

record video_info =
  vi_title :: "string option"
  vi_duration :: number
  vi_formats :: "parsed_format list"

text \<open>
  The state that the handlers change: the download directory (path to size in bytes),
  the calls made so far, the database, the global rate limiter, and
  \<open>context.user_data['download_url']\<close> of each user.
\<close>

record world =
  files :: "path \<rightharpoonup> nat"
  calls :: "call list"
  db :: database
  limiter :: RateLimiter
  user_data :: "int \<rightharpoonup> string"

text \<open>
  What the handlers do not decide: the configuration, the clock, and the behaviour of the
  collaborators. \<open>raises env n c\<close> says that the transport call \<open>c\<close>, made after \<open>n\<close>
  earlier calls, raises. The backends catch their own exceptions and return \<open>None\<close>:
  \<open>media_info_of\<close> is \<open>instagram_handler.get_media_info\<close>, \<open>media_files_of\<close> the files
  that \<open>instagram_handler.download_media\<close> writes and returns, \<open>ytdlp_fetch\<close> the
  yt-dlp download of a URL at a quality, and \<open>extract_info\<close> the yt-dlp probe.
\<close>

record env =
  admin_id :: int
  instagram_initialized :: bool
  ig_client :: "client option"
  now :: real
  raises :: "nat \<Rightarrow> call \<Rightarrow> bool"
  channel_member :: "int \<Rightarrow> bool"
  media_info_of :: "string \<Rightarrow> media_info option"
  media_files_of :: "string \<Rightarrow> (path \<times> nat) list option"
  ytdlp_fetch :: "string \<Rightarrow> string \<Rightarrow> ytdlp_result option"
  extract_info :: "string \<Rightarrow> raw_info option"

text \<open>A handler returns, or an exception leaves it; the world is the one reached.\<close>

datatype 'a result = Raise exn world | Return 'a world

definition world_of :: "'a result \<Rightarrow> world" where
  "world_of r = (case r of Raise e w \<Rightarrow> w | Return x w \<Rightarrow> w)"

definition returned :: "'a result \<Rightarrow> bool" where
  "returned r = (case r of Raise e w \<Rightarrow> False | Return x w \<Rightarrow> True)"

definition bind :: "'a result \<Rightarrow> ('a \<Rightarrow> world \<Rightarrow> 'b result) \<Rightarrow> 'b result" where
  "bind r k = (case r of Raise e w \<Rightarrow> Raise e w | Return x w \<Rightarrow> k x w)"

definition and_then :: "unit result \<Rightarrow> (world \<Rightarrow> 'b result) \<Rightarrow> 'b result" where
  "and_then r k = (case r of Raise e w \<Rightarrow> Raise e w | Return x w \<Rightarrow> k w)"

text \<open>A computation that may raise and leaves the world as it is.\<close>

definition evaluate :: "exn + 'a \<Rightarrow> world \<Rightarrow> unit result" where
  "evaluate r w = (case r of Inl e \<Rightarrow> Raise e w | Inr x \<Rightarrow> Return () w)"

definition record_call :: "call \<Rightarrow> world \<Rightarrow> world" where
  "record_call c w = w\<lparr>calls := calls w @ [c]\<rparr>"

definition send :: "env \<Rightarrow> call \<Rightarrow> world \<Rightarrow> unit result" where
  "send env c w =
     (if raises env (length (calls w)) c then Raise TelegramError w
      else Return () (record_call c w))"

subsection \<open>downloader.py and instagram_handler.py on the world\<close>

text \<open>\<open>os.path.getsize\<close> inside \<open>try\<close>: 0 for a file that is not there.\<close>

definition get_file_size :: "world \<Rightarrow> path \<Rightarrow> int" where
  "get_file_size w p = (case files w p of Some n \<Rightarrow> int n | None \<Rightarrow> 0)"

text \<open>\<open>os.remove\<close> of an existing file, taken to succeed.\<close>

definition cleanup_file :: "path \<Rightarrow> world \<Rightarrow> world" where
  "cleanup_file p w = (if files w p \<noteq> None then w\<lparr>files := (files w)(p := None)\<rparr> else w)"

text \<open>\<^verbatim>\<open>open(path, 'rb')\<close>\<close>

definition open_file :: "path \<Rightarrow> world \<Rightarrow> unit result" where
  "open_file p w = (if files w p = None then Raise FileNotFoundError w else Return () w)"

definition download_with_ytdlp :: "env \<Rightarrow> string \<Rightarrow> string \<Rightarrow> world \<Rightarrow> ytdlp_result option \<times> world"
  where
  "download_with_ytdlp env url q w =
     (let w1 = record_call (DownloadWithYtdlp url q) w in
      case ytdlp_fetch env url q of
        None \<Rightarrow> (None, w1)
      | Some r \<Rightarrow> (Some r, w1\<lparr>files := (files w1)(filepath r \<mapsto> written r)\<rparr>))"

definition write_files :: "(path \<times> nat) list \<Rightarrow> (path \<rightharpoonup> nat) \<Rightarrow> (path \<rightharpoonup> nat)" where
  "write_files fs m = foldl (\<lambda>m (p, n). m(p \<mapsto> n)) m fs"

definition get_media_info :: "env \<Rightarrow> string \<Rightarrow> world \<Rightarrow> media_info option \<times> world" where
  "get_media_info env url w = (media_info_of env url, record_call (GetMediaInfo url) w)"

definition download_media :: "env \<Rightarrow> string \<Rightarrow> world \<Rightarrow> path list option \<times> world" where
  "download_media env url w =
     (let w1 = record_call (DownloadMedia url) w in
      case media_files_of env url of
        None \<Rightarrow> (None, w1)
      | Some fs \<Rightarrow> (Some (map fst fs), w1\<lparr>files := write_files fs (files w1)\<rparr>))"

text \<open>\<open>get_video_info\<close>: an exception of \<open>_parse_formats\<close> is caught there, and the result
  is \<open>None\<close>.\<close>

definition get_video_info :: "env \<Rightarrow> string \<Rightarrow> world \<Rightarrow> video_info option \<times> world" where
  "get_video_info env url w =
     (case extract_info env url of
        None \<Rightarrow> None
      | Some info \<Rightarrow>
          (case parse_formats (ri_formats info) of
             Inl e \<Rightarrow> None
           | Inr fs \<Rightarrow> Some \<lparr>vi_title = ri_title info, vi_duration = ri_duration info,
                             vi_formats = fs\<rparr>),
      record_call (GetVideoInfo url) w)"

text \<open>\<open>os.path.splitext(path)[1]\<close>: from the last dot of the last component, leading
  dots of the component apart.\<close>

definition basename :: "path \<Rightarrow> string" where
  "basename p = rev (takeWhile (\<lambda>c. c \<noteq> CHR ''/'') (rev p))"

definition splitext_ext :: "path \<Rightarrow> string" where
  "splitext_ext p =
     (let core = dropWhile (\<lambda>c. c = CHR ''.'') (basename p) in
      if CHR ''.'' \<in> set core then CHR ''.'' # rev (takeWhile (\<lambda>c. c \<noteq> CHR ''.'') (rev core))
      else [])"

subsection \<open>Handlers\<close>

text \<open>
  \<open>check_membership_middleware\<close>: the administrator passes; a banned user and a user who
  is not in every locked channel are told so and stopped.
\<close>

definition check_membership_middleware :: "env \<Rightarrow> int \<Rightarrow> world \<Rightarrow> bool result" where
  "check_membership_middleware env user_id w =
     (if user_id = admin_id env then Return True w
      else if is_user_banned (db w) user_id
      then and_then (send env (ReplyText USER_BANNED_MESSAGE) w) (Return False)
      else if \<not> channel_member env user_id
      then and_then (send env (ReplyText CHANNEL_LOCK_REQUIRED) w) (Return False)
      else Return True w)"

text \<open>The two literals \<^verbatim>\<open>50 * 1024 * 1024\<close> of \<open>bot.py\<close>.\<close>

definition size_limit :: int where
  "size_limit = 50 * 1024 * 1024"

definition ytdlp_delivery :: "ytdlp_result \<Rightarrow> call" where
  "ytdlp_delivery r =
     (let e = lower (splitext_ext (filepath r)) in
      if e \<in> set [''.mp3'', ''.m4a'', ''.wav'', ''.ogg'', ''.opus''] \<or> is_audio r
      then ReplyAudio (filepath r)
      else if e \<in> set [''.mp4'', ''.webm'', ''.mkv'', ''.mov''] then ReplyVideo (filepath r)
      else ReplyDocument (filepath r))"

definition record_ytdlp_download :: "int \<Rightarrow> string \<Rightarrow> world \<Rightarrow> world" where
  "record_ytdlp_download user_id url w =
     w\<lparr>db := increment_download_count (add_download (db w) user_id ''ytdlp'' url None 0) user_id\<rparr>"

text \<open>The \<open>try\<close> block of \<open>_perform_download\<close>, then the function with its handler. Between
  the size gate and the upload the block prepares the duration for the caption, which may
  raise.\<close>

definition perform_download_try :: "env \<Rightarrow> int \<Rightarrow> string \<Rightarrow> string \<Rightarrow> world \<Rightarrow> unit result" where
  "perform_download_try env user_id url q w0 =
     and_then (send env SendChatAction w0) (\<lambda>w1.
       case download_with_ytdlp env url q w1 of
         (None, w2) \<Rightarrow> send env (EditText (DOWNLOAD_FAILED CheckTheLink) []) w2
       | (Some r, w2) \<Rightarrow>
           and_then (send env (EditText UPLOADING []) w2) (\<lambda>w3.
             if get_file_size w3 (filepath r) > 50 * 1024 * 1024
             then and_then (send env (ReplyText FILE_TOO_LARGE) w3) (\<lambda>w4.
                    send env DeleteStatus (cleanup_file (filepath r) w4))
             else and_then (evaluate (duration_str (duration r)) w3) (\<lambda>w3'.
                  and_then (open_file (filepath r) w3') (\<lambda>w4.
                  and_then (send env (ytdlp_delivery r) w4) (\<lambda>w5.
                  and_then (send env DeleteStatus (cleanup_file (filepath r) w5)) (\<lambda>w6.
                    Return () (record_ytdlp_download user_id url w6)))))))"

definition perform_download :: "env \<Rightarrow> int \<Rightarrow> string \<Rightarrow> string \<Rightarrow> world \<Rightarrow> unit result" where
  "perform_download env user_id url q w =
     (case perform_download_try env user_id url q w of
        Raise e w' \<Rightarrow> send env (EditText (DOWNLOAD_FAILED (ErrorText e)) []) w'
      | Return u w' \<Rightarrow> Return u w')"

definition instagram_delivery :: "path \<Rightarrow> call" where
  "instagram_delivery file_path =
     (let e = lower (splitext_ext file_path) in
      if e \<in> set [''.jpg'', ''.jpeg'', ''.png''] then ReplyPhoto file_path
      else if e \<in> set [''.mp4'', ''.mov''] then ReplyVideo file_path
      else ReplyDocument file_path)"

text \<open>The loop \<^verbatim>\<open>for file_path in downloaded_files\<close> of \<open>download_handler\<close>.\<close>

fun send_files :: "env \<Rightarrow> int \<Rightarrow> string \<Rightarrow> media_info \<Rightarrow> path list \<Rightarrow> world \<Rightarrow> unit result" where
  "send_files env user_id url mi [] w = Return () w"
| "send_files env user_id url mi (file_path # rest) w =
     (if files w file_path = None then send_files env user_id url mi rest w
      else if get_file_size w file_path > 50 * 1024 * 1024
      then (case send env (ReplyText FILE_TOO_LARGE) w of
              Raise e w1 \<Rightarrow> Raise e w1
            | Return u w1 \<Rightarrow> send_files env user_id url mi rest (cleanup_file file_path w1))
      else (case send env (instagram_delivery file_path) w of
              Raise e w1 \<Rightarrow> Raise e w1
            | Return u w1 \<Rightarrow>
                send_files env user_id url mi rest
                  ((cleanup_file file_path w1)
                     \<lparr>db := add_download (db w1) user_id (mi_media_type mi) url
                              (Some (mi_username mi)) (get_file_size w file_path)\<rparr>)))"

text \<open>The \<open>try\<close> block of \<open>download_handler\<close>.\<close>

definition download_try :: "env \<Rightarrow> int \<Rightarrow> string \<Rightarrow> world \<Rightarrow> unit result" where
  "download_try env user_id url w0 =
     and_then (send env SendChatAction w0) (\<lambda>w1.
       case (if instagram_initialized env then get_media_info env url w1 else (None, w1)) of
         (None, w2) \<Rightarrow>
           (case download_with_ytdlp env url ''best'' w2 of
              (Some r, w3) \<Rightarrow>
                and_then (send env (EditText UPLOADING []) w3) (\<lambda>w4.
                and_then (open_file (filepath r) w4) (\<lambda>w5.
                and_then (send env (ReplyDocument (filepath r)) w5) (\<lambda>w6.
                and_then (send env DeleteStatus (cleanup_file (filepath r) w6)) (\<lambda>w7.
                  Return () (record_ytdlp_download user_id url w7)))))
            | (None, w3) \<Rightarrow> send env (EditText (DOWNLOAD_FAILED MediaNotFound) []) w3)
       | (Some mi, w2) \<Rightarrow>
           and_then (send env (EditText PROCESSING []) w2) (\<lambda>w3.
             case download_media env url w3 of
               (None, w4) \<Rightarrow> send env (EditText (DOWNLOAD_FAILED DownloadUnsuccessful) []) w4
             | (Some downloaded_files, w4) \<Rightarrow>
                 if downloaded_files = []
                 then send env (EditText (DOWNLOAD_FAILED DownloadUnsuccessful) []) w4
                 else and_then (send env (EditText UPLOADING []) w4) (\<lambda>w5.
                      and_then (send_files env user_id url mi downloaded_files w5) (\<lambda>w6.
                      and_then (send env DeleteStatus w6) (\<lambda>w7.
                        Return () (w7\<lparr>db := increment_download_count (db w7) user_id\<rparr>))))))"

text \<open>\<open>download_handler\<close>, for the text of the message of user \<open>user_id\<close>.\<close>

definition download_handler :: "env \<Rightarrow> int \<Rightarrow> string \<Rightarrow> world \<Rightarrow> unit result" where
  "download_handler env user_id text w0 =
     bind (check_membership_middleware env user_id w0) (\<lambda>member w1.
       if \<not> member then Return () w1
       else if \<not> has_verified_account (db w1) user_id
       then send env (ReplyText NO_VERIFIED_ACCOUNT) w1
       else (case can_proceed (now env) (limiter w1) user_id 5 of
               ((proceed, wait_time), rl) \<Rightarrow>
                 if \<not> proceed then send env (ReplyText (RATE_LIMIT wait_time)) (w1\<lparr>limiter := rl\<rparr>)
                 else (case extract_instagram_url text of
                         None \<Rightarrow> send env (ReplyText INVALID_LINK) (w1\<lparr>limiter := rl\<rparr>)
                       | Some url \<Rightarrow>
                           and_then (send env (ReplyText DOWNLOADING) (w1\<lparr>limiter := rl\<rparr>)) (\<lambda>w2.
                             case download_try env user_id url w2 of
                               Raise e w3 \<Rightarrow> send env (EditText (DOWNLOAD_FAILED (ErrorText e)) []) w3
                             | Return u w3 \<Rightarrow> Return u w3))))"

text \<open>\<open>ytdlp_download_handler\<close>: its \<open>try\<close> block, and the handler, whose \<open>except\<close> clause
  downloads at the quality \<open>best\<close>. After the probe the block prepares the duration and
  the first 50 characters of the title for the text of the menu, and either may raise.\<close>

definition ytdlp_try :: "env \<Rightarrow> int \<Rightarrow> string \<Rightarrow> world \<Rightarrow> unit result" where
  "ytdlp_try env user_id url w0 =
     and_then (send env SendChatAction w0) (\<lambda>w1.
       case get_video_info env url w1 of
         (Some info, w2) \<Rightarrow>
           and_then (evaluate (duration_str (vi_duration info)) w2) (\<lambda>w3.
           and_then (evaluate (title_prefix (vi_title info)) w3) (\<lambda>w4.
             send env (EditText SELECT_QUALITY (download_options url True True)) w4))
       | (None, w2) \<Rightarrow> perform_download env user_id url ''best'' w2)"

definition ytdlp_download_handler :: "env \<Rightarrow> int \<Rightarrow> string \<Rightarrow> world \<Rightarrow> unit result" where
  "ytdlp_download_handler env user_id text w0 =
     bind (check_membership_middleware env user_id (w0\<lparr>db := add_user (db w0) user_id\<rparr>))
       (\<lambda>member w1.
          if \<not> member then Return () w1
          else (case can_proceed (now env) (limiter w1) user_id 5 of
                  ((proceed, wait_time), rl) \<Rightarrow>
                    if \<not> proceed
                    then send env (ReplyText (RATE_LIMIT wait_time)) (w1\<lparr>limiter := rl\<rparr>)
                    else (case extract_media_url text of
                            None \<Rightarrow> send env (ReplyText INVALID_LINK) (w1\<lparr>limiter := rl\<rparr>)
                          | Some url \<Rightarrow>
                              and_then
                                (send env (ReplyText FETCHING_INFO)
                                   (w1\<lparr>limiter := rl, user_data := (user_data w1)(user_id \<mapsto> url)\<rparr>))
                                (\<lambda>w2. case ytdlp_try env user_id url w2 of
                                         Raise e w3 \<Rightarrow> perform_download env user_id url ''best'' w3
                                       | Return u w3 \<Rightarrow> Return u w3))))"

text \<open>
  \<open>check_verification\<close>, for the id in the callback data. The scan is the call
  \<open>CheckDirectMessage\<close>, and each \<open>direct_thread_approve\<close> that it makes a call
  \<open>ApproveThread\<close>. The loop over the accounts of the user marks the first one with the
  user name of the record as verified.
\<close>

definition scan_inbox :: "env \<Rightarrow> string \<Rightarrow> world \<Rightarrow> bool \<times> world" where
  "scan_inbox env code w =
     (case check_direct_message (ig_client env) code 50 of
        (found, approved) \<Rightarrow>
          (found, w\<lparr>calls := calls w @ CheckDirectMessage code # map ApproveThread approved\<rparr>))"

definition mark_verified :: "database \<Rightarrow> pending_verification \<Rightarrow> database" where
  "mark_verified d v =
     (case find (\<lambda>acc. instagram_username acc = pv_instagram_username v)
             (get_user_instagram_accounts d (pv_user_id v)) of
        Some acc \<Rightarrow> verify_instagram_account d (acc_id acc)
      | None \<Rightarrow> d)"

definition check_verification :: "env \<Rightarrow> int \<Rightarrow> world \<Rightarrow> unit result" where
  "check_verification env verification_id w0 =
     and_then (send env Answer w0) (\<lambda>w1.
       case get_verification (db w1) verification_id of
         None \<Rightarrow> send env (EditText CODE_EXPIRED []) w1
       | Some verification \<Rightarrow>
           and_then (send env (EditText VERIFICATION_PENDING []) w1) (\<lambda>w2.
             case (if instagram_initialized env
                   then scan_inbox env (verification_code verification) w2 else (False, w2)) of
               (code_found, w3) \<Rightarrow>
                 if code_found
                 then send env
                        (EditText (VERIFICATION_SUCCESS (pv_instagram_username verification))
                           back_button)
                        (w3\<lparr>db := delete_verification (mark_verified (db w3) verification)
                                     verification_id\<rparr>)
                 else send env (EditText VERIFICATION_FAILED (verification_check verification_id))
                        w3))"

subsection \<open>Conditions on the collaborators\<close>

text \<open>The condition under which \<open>check_membership_middleware\<close> lets a user pass, and the
  chat transport on which no call raises.\<close>

definition passes_membership :: "env \<Rightarrow> database \<Rightarrow> int \<Rightarrow> bool" where
  "passes_membership env d user_id =
     (user_id = admin_id env \<or> (\<not> is_user_banned d user_id \<and> channel_member env user_id))"

definition transport_ok :: "env \<Rightarrow> bool" where
  "transport_ok env = (\<forall>n c. \<not> raises env n c)"

subsection \<open>A concrete bot\<close>

text \<open>
  The inputs at which the theorems below are instantiated: a bot without an Instagram
  session whose collaborators find nothing, an empty world, and the variations of both.
\<close>

definition env0 :: env where
  "env0 = \<lparr>admin_id = 1, instagram_initialized = False, ig_client = None, now = 1000,
           raises = (\<lambda>n c. False), channel_member = (\<lambda>u. True),
           media_info_of = (\<lambda>u. None), media_files_of = (\<lambda>u. None),
           ytdlp_fetch = (\<lambda>u q. None), extract_info = (\<lambda>u. None)\<rparr>"

definition db0 :: database where
  "db0 = \<lparr>users = Map.empty, instagram_accounts = [], pending_verifications = [],
          downloads = []\<rparr>"

definition world0 :: world where
  "world0 = \<lparr>files = Map.empty, calls = [], db = db0,
             limiter = \<lparr>last_request = Map.empty\<rparr>, user_data = Map.empty\<rparr>"

definition video_format :: "string \<Rightarrow> int \<Rightarrow> format" where
  "video_format fid h =
     \<lparr>fmt_url = ''https://cdn.example/v'', format_id = fid, ext = ''mp4'', height = Some h,
      width = None, filesize = 0, filesize_approx = 0, vcodec = ''avc1'', acodec = ''none'',
      format_note = []\<rparr>"

definition audio_format :: format where
  "audio_format =
     \<lparr>fmt_url = ''https://cdn.example/a'', format_id = ''140'', ext = ''m4a'', height = None,
      width = None, filesize = 0, filesize_approx = 0, vcodec = ''none'', acodec = ''mp4a'',
      format_note = []\<rparr>"

definition probe_env :: "format list \<Rightarrow> env" where
  "probe_env fs = env0\<lparr>extract_info := (\<lambda>u. Some \<lparr>ri_title = Some ''clip'',
                                                     ri_duration = IntValue 213,
                                                     ri_formats = fs\<rparr>)\<rparr>"

text \<open>A pending verification of user 7 that expires at time \<open>t\<close> (the clock of \<open>env0\<close>
  reads 1000), the unverified account that was recorded with it, and a bot with an
  Instagram session whose inbox is given.\<close>

definition pending_at :: "real \<Rightarrow> pending_verification" where
  "pending_at t =
     \<lparr>pv_id = 1, pv_user_id = 7, verification_code = ''AB12CD34'',
      pv_instagram_username = ''alice'', expires_at = t\<rparr>"

definition world_pending :: "real \<Rightarrow> world" where
  "world_pending t =
     world0\<lparr>db := db0\<lparr>pending_verifications := [pending_at t],
                        instagram_accounts :=
                          [\<lparr>acc_id = 3, acc_user_id = 7, instagram_username = ''alice'',
                            is_verified = 0, acc_verification_code = ''AB12CD34'',
                            code_expires_at = t, created_at = 100\<rparr>]\<rparr>\<rparr>"

definition inbox_env :: "(exn + int list) \<Rightarrow> string option list \<Rightarrow> env" where
  "inbox_env threads msgs =
     env0\<lparr>instagram_initialized := True,
          ig_client := Some \<lparr>direct_threads = (\<lambda>n. threads),
                             direct_messages = (\<lambda>t n. Inr msgs),
                             direct_pending_inbox = Inr [],
                             direct_thread_approve = (\<lambda>t. Inr ())\<rparr>\<rparr>"

text \<open>The files of a list that the loop of \<open>download_handler\<close> finds on disk, by the
  side of the size limit on which they are.\<close>

definition deliverable :: "world \<Rightarrow> path list \<Rightarrow> path set" where
  "deliverable w ps = {p \<in> set ps. files w p \<noteq> None \<and> get_file_size w p \<le> 50 * 1024 * 1024}"

definition oversized :: "world \<Rightarrow> path list \<Rightarrow> path set" where
  "oversized w ps = {p \<in> set ps. files w p \<noteq> None \<and> get_file_size w p > 50 * 1024 * 1024}"

text \<open>User 7 with a row in \<open>users\<close> (4 downloads so far) and a verified account; a bot
  with a session that resolves a post to an album of three files, the second of
  50 MiB + 1 byte and the third of exactly 50 MiB; and a bot without a session whose
  yt-dlp writes one file of a given size.\<close>

definition world_verified :: world where
  "world_verified =
     world0\<lparr>db := db0\<lparr>users := [7 \<mapsto> \<lparr>is_banned = 0, download_count = 4\<rparr>],
                        instagram_accounts :=
                          [\<lparr>acc_id = 3, acc_user_id = 7, instagram_username = ''alice'',
                            is_verified = 1, acc_verification_code = ''AB12CD34'',
                            code_expires_at = 500, created_at = 100\<rparr>]\<rparr>\<rparr>"

definition album_env :: env where
  "album_env =
     env0\<lparr>instagram_initialized := True,
          media_info_of := (\<lambda>u. Some \<lparr>mi_media_type = ''album'', mi_username = ''alice'',
                                       like_count = 10, comment_count = 2, mi_caption = ''hi''\<rparr>),
          media_files_of := (\<lambda>u. Some [(''downloads/a.jpg'', 1000),
                                         (''downloads/b.mp4'', 52428801),
                                         (''downloads/c.jpg'', 52428800)])\<rparr>"

definition clip :: "nat \<Rightarrow> ytdlp_result" where
  "clip n = \<lparr>filepath = ''downloads/clip.mp4'', title = ''clip'', uploader = ''bob'',
             duration = IntValue 213, is_audio = False, written = n\<rparr>"

definition ytdlp_env :: "nat \<Rightarrow> env" where
  "ytdlp_env n = env0\<lparr>ytdlp_fetch := (\<lambda>u q. Some (clip n))\<rparr>"

text \<open>The same two bots on a transport whose uploads raise.\<close>

definition upload_fails :: "env \<Rightarrow> env" where
  "upload_fails env = env\<lparr>raises := (\<lambda>n c. is_delivery c)\<rparr>"

subsection \<open>Shapes of URLs\<close>

text \<open>A text that \<open>urlparse\<close> keeps whole as the network location: without the
  delimiters of the path, the query and the fragment, without square brackets, and
  without the characters that \<open>urlsplit\<close> removes.\<close>

definition host_text :: "string \<Rightarrow> bool" where
  "host_text h =
     list_all (\<lambda>c. c \<notin> {CHR ''/'', CHR ''?'', CHR ''#'', CHR ''['', CHR '']'',
                         CHR 0x09, CHR 0x0A, CHR 0x0D}) h"

text \<open>What may follow the network location: nothing, or a path, a query or a fragment.\<close>

definition after_host :: "string \<Rightarrow> bool" where
  "after_host r = (r = [] \<or> hd r \<in> {CHR ''/'', CHR ''?'', CHR ''#''})"

section \<open>Properties\<close>

subsection \<open>Verification codes\<close>

lemma length_characters: "length characters = 36"
  by (simp add: characters_def ascii_uppercase_def digits_def)

lemma random_choice_mem: "seq \<noteq> [] \<Longrightarrow> random_choice seq r \<in> set seq"
  by (simp add: random_choice_def)

text \<open>
  Claim C9. Every generated code has exactly the configured length (8 by default) and
  consists only of characters of the alphabet, which is the uppercase letters followed by
  the digits. This holds for every random source, hence for each code independently of
  any other.
\<close>

theorem generate_verification_code_shape:
  "length (generate_verification_code len rnd) = nat len
   \<and> set (generate_verification_code len rnd) \<subseteq> set characters
   \<and> length (generate_verification_code default_code_length rnd) = 8
   \<and> characters = ''ABCDEFGHIJKLMNOPQRSTUVWXYZ0123456789''"
proof -
  have ne: "characters \<noteq> []"
    using length_characters by auto
  have "set (generate_verification_code len rnd) \<subseteq> set characters"
    unfolding generate_verification_code_def
    using random_choice_mem [OF ne] by auto
  moreover have "characters = ''ABCDEFGHIJKLMNOPQRSTUVWXYZ0123456789''"
    by (simp add: characters_def ascii_uppercase_def digits_def)
  ultimately show ?thesis
    by (simp add: generate_verification_code_def default_code_length_def)
qed

subsection \<open>Rate limiter\<close>

lemma can_proceed_allowed_stamps:
  "fst (fst (can_proceed t rl u c)) \<Longrightarrow> last_request (snd (can_proceed t rl u c)) u = Some t"
  by (auto simp: can_proceed_def stamp_def Let_def split: option.splits if_splits)

text \<open>
  Claim C6, as stated, fails: a second call that arrives in the last second of the
  window is denied with the retry-after value 0, which is not positive. Here the first
  call is at 1000 s and the second 4.5 s later, with the cooldown of 5 s.
\<close>

theorem can_proceed_zero_retry:
  "fst (can_proceed 1000 \<lparr>last_request = Map.empty\<rparr> 7 5) = (True, 0) \<and>
   fst (can_proceed (2009 / 2) (snd (can_proceed 1000 \<lparr>last_request = Map.empty\<rparr> 7 5)) 7 5)
     = (False, 0)"
  by (simp add: can_proceed_def stamp_def int_trunc_def)

text \<open>
  Claim C6, amended. After a call of an identity that was allowed at time \<open>t1\<close>, a call
  of the same identity at time \<open>t2\<close> with cooldown \<open>c\<close> is denied when \<open>t2 - t1 < c\<close>,
  the limiter is left as it was, and the retry-after value is the remaining cooldown
  \<open>c - (t2 - t1)\<close> rounded down to whole seconds: it is never negative, less than one
  second below the remaining cooldown, and positive exactly when at least one second
  remains. Otherwise the call is allowed with the value 0 and stamps \<open>t2\<close>.
\<close>

theorem can_proceed_second_call:
  assumes "fst (fst (can_proceed t1 rl u c1))"
  shows "(let rl1 = snd (can_proceed t1 rl u c1); r2 = can_proceed t2 rl1 u c in
          if t2 - t1 < of_int c
          then fst r2 = (False, \<lfloor>of_int c - (t2 - t1)\<rfloor>) \<and> snd r2 = rl1
               \<and> 0 \<le> snd (fst r2)
               \<and> of_int (snd (fst r2)) \<le> of_int c - (t2 - t1)
               \<and> of_int c - (t2 - t1) < of_int (snd (fst r2)) + 1
               \<and> (0 < snd (fst r2)) = (1 \<le> of_int c - (t2 - t1))
          else fst r2 = (True, 0) \<and> last_request (snd r2) u = Some t2)"
proof -
  let ?rl1 = "snd (can_proceed t1 rl u c1)"
  have l: "last_request ?rl1 u = Some t1"
    using assms by (rule can_proceed_allowed_stamps)
  show ?thesis
  proof (cases "t2 - t1 < of_int c")
    case True
    then have pos: "0 < of_int c - (t2 - t1)" by simp
    have "can_proceed t2 ?rl1 u c = ((False, \<lfloor>of_int c - (t2 - t1)\<rfloor>), ?rl1)"
      using True l pos by (simp add: can_proceed_def int_trunc_def)
    moreover have "(0 < \<lfloor>of_int c - (t2 - t1)\<rfloor>) = (1 \<le> of_int c - (t2 - t1))"
      by linarith
    moreover have "0 \<le> \<lfloor>of_int c - (t2 - t1)\<rfloor>" using pos by simp
    ultimately show ?thesis using True
      by (simp add: Let_def)
  next
    case False
    then show ?thesis using l
      by (simp add: can_proceed_def stamp_def Let_def)
  qed
qed

theorem can_proceed_second_call_witness:
  "fst (can_proceed 1002 (snd (can_proceed 1000 \<lparr>last_request = Map.empty\<rparr> 7 5)) 7 5) = (False, 3)
   \<and> fst (can_proceed 1005 (snd (can_proceed 1000 \<lparr>last_request = Map.empty\<rparr> 7 5)) 7 5) = (True, 0)"
proof -
  have a: "fst (fst (can_proceed 1000 \<lparr>last_request = Map.empty\<rparr> 7 5))"
    by (simp add: can_proceed_def)
  have "(1002::real) - 1000 < of_int 5" by simp
  with can_proceed_second_call [OF a, of 1002 5]
  have 1: "fst (can_proceed 1002 (snd (can_proceed 1000 \<lparr>last_request = Map.empty\<rparr> 7 5)) 7 5)
             = (False, 3)"
    by (simp add: Let_def)
  have "\<not> (1005::real) - 1000 < of_int 5" by simp
  with can_proceed_second_call [OF a, of 1005 5]
  have 2: "fst (can_proceed 1005 (snd (can_proceed 1000 \<lparr>last_request = Map.empty\<rparr> 7 5)) 7 5)
             = (True, 0)"
    by (simp add: Let_def)
  from 1 2 show ?thesis by simp
qed

subsection \<open>Running the handlers\<close>

lemma and_then_simps:
  "and_then (Return x w) k = k w"
  "and_then (Raise e w) k = Raise e w"
  "bind (Return y w) k' = k' y w"
  "bind (Raise e w) k' = Raise e w"
  by (simp_all add: and_then_def bind_def)

lemma send_ok: "transport_ok env \<Longrightarrow> send env c w = Return () (record_call c w)"
  by (simp add: send_def transport_ok_def)

lemma record_call_simps:
  "calls (record_call c w) = calls w @ [c]"
  "files (record_call c w) = files w"
  "db (record_call c w) = db w"
  "limiter (record_call c w) = limiter w"
  "user_data (record_call c w) = user_data w"
  by (simp_all add: record_call_def)

lemma membership_passes:
  "passes_membership env (db w) user_id \<Longrightarrow>
   check_membership_middleware env user_id w = Return True w"
  by (auto simp: passes_membership_def check_membership_middleware_def)

lemma is_user_banned_add_user: "is_user_banned (add_user d u) u' = is_user_banned d u'"
  by (auto simp: is_user_banned_def add_user_def split: option.splits)

lemma passes_membership_add_user:
  "passes_membership env (add_user d u) u' = passes_membership env d u'"
  by (simp add: passes_membership_def is_user_banned_add_user)

lemma transport_ok_env0: "transport_ok env0"
  by (simp add: transport_ok_def env0_def)

subsection \<open>Formats and quality menu\<close>

lemma quality_parsed_of: "quality (parsed_of fmt) = quality_label fmt"
  by (simp add: parsed_of_def)

lemma parse_loop_distinct:
  "distinct (map quality parsed) \<Longrightarrow> quality ` set parsed \<subseteq> seen
   \<Longrightarrow> distinct (map quality (parse_loop fmts parsed seen))"
proof (induction fmts arbitrary: parsed seen)
  case Nil
  then show ?case by simp
next
  case (Cons fmt fmts)
  show ?case
  proof (cases "fmt_url fmt = [] \<or> (vcodec fmt = ''none'' \<and> acodec fmt \<noteq> ''none'')
                \<or> quality_label fmt \<in> seen")
    case True
    then show ?thesis using Cons by auto
  next
    case False
    have d: "distinct (map quality (parsed @ [parsed_of fmt]))"
      using Cons.prems False by (auto simp: quality_parsed_of)
    have s: "quality ` set (parsed @ [parsed_of fmt]) \<subseteq> insert (quality_label fmt) seen"
      using Cons.prems by (auto simp: quality_parsed_of)
    show ?thesis using False Cons.IH [OF d s] by auto
  qed
qed

lemma parse_loop_from:
  "set (parse_loop fmts parsed seen) \<subseteq>
     set parsed \<union> parsed_of ` {fmt \<in> set fmts. fmt_url fmt \<noteq> [] \<and>
                                  \<not> (vcodec fmt = ''none'' \<and> acodec fmt \<noteq> ''none'')}"
proof (induction fmts arbitrary: parsed seen)
  case Nil
  then show ?case by simp
next
  case (Cons fmt fmts)
  show ?case using Cons.IH [of parsed seen]
      Cons.IH [of "parsed @ [parsed_of fmt]" "insert (quality_label fmt) seen"]
    by (simp split: if_splits) blast+
qed

lemma distinct_map_sort_key:
  "distinct (map g (sort_key f xs)) = distinct (map g xs)"
  by (simp add: distinct_map)

lemma parse_formats_tiers:
  assumes "parse_formats formats = Inr tiers"
  shows "distinct (map quality tiers)"
    and "sorted_wrt (\<lambda>a b. sort_key_height b \<le> sort_key_height a) tiers"
    and "length tiers \<le> 8"
    and "set tiers \<subseteq> parsed_of ` {fmt \<in> set formats. fmt_url fmt \<noteq> [] \<and>
                                  \<not> (vcodec fmt = ''none'' \<and> acodec fmt \<noteq> ''none'')}"
proof -
  let ?parsed = "parse_loop formats [] {}"
  let ?sorted = "sort_key (\<lambda>x. - sort_key_height x) ?parsed"
  have t: "tiers = take 8 ?sorted"
    using assms by (simp add: parse_formats_def Let_def split: if_splits)
  have "distinct (map quality ?parsed)"
    by (rule parse_loop_distinct) simp_all
  then have "distinct (map quality ?sorted)"
    by (simp only: distinct_map_sort_key)
  then show "distinct (map quality tiers)"
    unfolding t by (simp add: take_map [symmetric] del: distinct_map)
  have "sorted (map (\<lambda>x. - sort_key_height x) ?sorted)"
    by (rule sorted_sort_key)
  then have "sorted_wrt (\<lambda>a b. sort_key_height b \<le> sort_key_height a) ?sorted"
    by (simp add: sorted_map)
  then show "sorted_wrt (\<lambda>a b. sort_key_height b \<le> sort_key_height a) tiers"
    unfolding t by (rule sorted_wrt_take)
  show "length tiers \<le> 8" unfolding t by simp
  have "set tiers \<subseteq> set ?parsed"
    unfolding t using set_take_subset [of 8 ?sorted] by simp
  then show "set tiers \<subseteq> parsed_of ` {fmt \<in> set formats. fmt_url fmt \<noteq> [] \<and>
                                  \<not> (vcodec fmt = ''none'' \<and> acodec fmt \<noteq> ''none'')}"
    using parse_loop_from [of formats "[]" "{}"] by auto
qed

lemma takeWhile_until:
  "c \<notin> set q \<Longrightarrow> takeWhile (\<lambda>x. x \<noteq> c) (q @ c # rest) = q"
  by (induction q) auto

lemma selected_quality_dl:
  "CHR '':'' \<notin> set q \<Longrightarrow> selected_quality (''dl:'' @ q @ '':'' @ rest) = Some q"
  by (simp add: selected_quality_def startswith_def takeWhile_until)

lemma menu_qualities:
  "map (selected_quality \<circ> callback_data) (concat (download_options url True True)) =
     [Some ''best'', Some ''720'', Some ''480'', Some ''360'', Some ''240'', Some ''audio'', None]"
  using selected_quality_dl [of "''best''" "take 50 url"]
    selected_quality_dl [of "''720''" "take 50 url"]
    selected_quality_dl [of "''480''" "take 50 url"]
    selected_quality_dl [of "''360''" "take 50 url"]
    selected_quality_dl [of "''240''" "take 50 url"]
    selected_quality_dl [of "''audio''" "take 50 url"]
  by (simp add: download_options_def selected_quality_def)

lemma menu_captions:
  "map caption (concat (download_options url True True)) =
     [BestQuality, Tier ''720p'', Tier ''480p'', Tier ''360p'', Tier ''240p'', AudioOnlyMP3, Cancel]"
  by (simp add: download_options_def)

lemma audio_extraction:
  "map (snd \<circ> ytdlp_format) [''best'', ''720'', ''480'', ''360'', ''240'', ''audio''] =
     [False, False, False, False, False, True]"
  by (simp add: ytdlp_format_def)

lemma title_prefix_named: "evaluate (title_prefix (Some t)) w = Return () w"
  by (simp add: evaluate_def title_prefix_def)

lemma duration_str_formats:
  assumes "\<And>x. d = FloatValue x \<Longrightarrow> x = 0"
  shows "evaluate (duration_str d) w = Return () w"
  using assms
  by (cases d) (simp_all add: evaluate_def duration_str_def truthy_def format_duration_def Let_def)

lemma duration_str_float:
  "x \<noteq> 0 \<Longrightarrow> evaluate (duration_str (FloatValue x)) w = Raise ValueError w"
  by (simp add: evaluate_def duration_str_def truthy_def format_duration_def)

lemma ytdlp_handler_menu:
  assumes probe: "extract_info env url = Some info"
    and fmts: "parse_formats (ri_formats info) = Inr tiers"
    and named: "ri_title info = Some t"
    and whole: "\<And>x. ri_duration info = FloatValue x \<Longrightarrow> x = 0"
    and link: "extract_media_url text = Some url"
    and member: "passes_membership env (db w) user_id"
    and rate: "fst (fst (can_proceed (now env) (limiter w) user_id 5))"
    and ok: "transport_ok env"
  shows "returned (ytdlp_download_handler env user_id text w)"
    and "calls (world_of (ytdlp_download_handler env user_id text w)) =
           calls w @ [ReplyText FETCHING_INFO, SendChatAction, GetVideoInfo url,
                      EditText SELECT_QUALITY (download_options url True True)]"
proof -
  let ?w0 = "w\<lparr>db := add_user (db w) user_id\<rparr>"
  have m: "check_membership_middleware env user_id ?w0 = Return True ?w0"
    by (rule membership_passes) (simp add: passes_membership_add_user member)
  obtain wt rl where cp: "can_proceed (now env) (limiter w) user_id 5 = ((True, wt), rl)"
    using rate by (cases "can_proceed (now env) (limiter w) user_id 5") auto
  have gv: "\<And>w'. get_video_info env url w' =
                (Some \<lparr>vi_title = Some t, vi_duration = ri_duration info, vi_formats = tiers\<rparr>,
                 record_call (GetVideoInfo url) w')"
    by (simp add: get_video_info_def probe fmts named)
  have h: "ytdlp_download_handler env user_id text w =
        Return () (record_call (EditText SELECT_QUALITY (download_options url True True))
          (record_call (GetVideoInfo url) (record_call SendChatAction
            (record_call (ReplyText FETCHING_INFO)
               (?w0\<lparr>limiter := rl, user_data := (user_data ?w0)(user_id \<mapsto> url)\<rparr>)))))"
    by (simp add: ytdlp_download_handler_def m cp link and_then_simps send_ok [OF ok]
        ytdlp_try_def gv duration_str_formats [OF whole] title_prefix_named)
  show "returned (ytdlp_download_handler env user_id text w)"
    by (simp add: h returned_def)
  show "calls (world_of (ytdlp_download_handler env user_id text w)) =
           calls w @ [ReplyText FETCHING_INFO, SendChatAction, GetVideoInfo url,
                      EditText SELECT_QUALITY (download_options url True True)]"
    by (simp add: h world_of_def record_call_simps)
qed

lemma probe_env_facts:
  "extract_info (probe_env fs) u =
     Some \<lparr>ri_title = Some ''clip'', ri_duration = IntValue 213, ri_formats = fs\<rparr>"
  "transport_ok (probe_env fs)"
  "passes_membership (probe_env fs) (db world0) 7"
  "fst (fst (can_proceed (now (probe_env fs)) (limiter world0) 7 5))"
  by (simp_all add: probe_env_def env0_def transport_ok_def passes_membership_def world0_def
      db0_def is_user_banned_def can_proceed_def)

lemma example_link:
  "extract_media_url ''see https://youtube.com/watch?v=xyz.'' = Some ''https://youtube.com/watch?v=xyz''"
  by code_simp

text \<open>
  Claim C8, as stated, fails: the options presented are not the tiers of the retrievable
  formats. When the probe finds the single video format of height 1080, the format list
  of the probe result has the one tier \<open>1080p\<close>, and the menu that the handler presents
  offers 720p, 480p, 360p and 240p, and no 1080p.
\<close>

theorem menu_ignores_formats:
  "map_sum id (map quality) (parse_formats [video_format ''137'' 1080]) = Inr [''1080p'']
   \<and> calls (world_of (ytdlp_download_handler (probe_env [video_format ''137'' 1080]) 7
                ''see https://youtube.com/watch?v=xyz.'' world0)) =
       [ReplyText FETCHING_INFO, SendChatAction, GetVideoInfo ''https://youtube.com/watch?v=xyz'',
        EditText SELECT_QUALITY (download_options ''https://youtube.com/watch?v=xyz'' True True)]
   \<and> map caption (concat (download_options ''https://youtube.com/watch?v=xyz'' True True)) =
       [BestQuality, Tier ''720p'', Tier ''480p'', Tier ''360p'', Tier ''240p'', AudioOnlyMP3, Cancel]"
proof -
  have 1: "map_sum id (map quality) (parse_formats [video_format ''137'' 1080]) = Inr [''1080p'']"
    by code_simp
  then obtain tiers where t: "parse_formats [video_format ''137'' 1080] = Inr tiers"
    by (cases "parse_formats [video_format ''137'' 1080]") auto
  have 2: "calls (world_of (ytdlp_download_handler (probe_env [video_format ''137'' 1080]) 7
                ''see https://youtube.com/watch?v=xyz.'' world0)) =
       calls world0 @
       [ReplyText FETCHING_INFO, SendChatAction, GetVideoInfo ''https://youtube.com/watch?v=xyz'',
        EditText SELECT_QUALITY (download_options ''https://youtube.com/watch?v=xyz'' True True)]"
    by (rule ytdlp_handler_menu(2) [OF probe_env_facts(1) _ _ _ example_link probe_env_facts(3,4,2)])
       (simp_all add: t)
  show ?thesis using 1 2 by (simp add: menu_captions world0_def)
qed

text \<open>
  A probe whose duration is a float other than 0 does not reach the menu: the text of
  the menu cannot be prepared, and the handler downloads at the quality \<open>best\<close> as it does
  when the probe fails.
\<close>

lemma float_duration_downloads_best:
  assumes probe: "extract_info env url = Some info"
    and fmts: "parse_formats (ri_formats info) = Inr tiers"
    and float: "ri_duration info = FloatValue x" "x \<noteq> 0"
    and link: "extract_media_url text = Some url"
    and member: "passes_membership env (db w) user_id"
    and rate: "fst (fst (can_proceed (now env) (limiter w) user_id 5))"
    and ok: "transport_ok env"
  shows "ytdlp_download_handler env user_id text w =
           perform_download env user_id url ''best''
             (record_call (GetVideoInfo url) (record_call SendChatAction
               (record_call (ReplyText FETCHING_INFO)
                  (w\<lparr>db := add_user (db w) user_id,
                     limiter := snd (can_proceed (now env) (limiter w) user_id 5),
                     user_data := (user_data w)(user_id \<mapsto> url)\<rparr>))))"
proof -
  let ?w0 = "w\<lparr>db := add_user (db w) user_id\<rparr>"
  have m: "check_membership_middleware env user_id ?w0 = Return True ?w0"
    by (rule membership_passes) (simp add: passes_membership_add_user member)
  obtain wt rl where cp: "can_proceed (now env) (limiter w) user_id 5 = ((True, wt), rl)"
    using rate by (cases "can_proceed (now env) (limiter w) user_id 5") auto
  have gv: "\<And>w'. get_video_info env url w' =
                (Some \<lparr>vi_title = ri_title info, vi_duration = FloatValue x, vi_formats = tiers\<rparr>,
                 record_call (GetVideoInfo url) w')"
    by (simp add: get_video_info_def probe fmts float)
  show ?thesis
    by (simp add: ytdlp_download_handler_def m cp link and_then_simps send_ok [OF ok]
        ytdlp_try_def gv duration_str_float [OF float(2)])
qed

text \<open>
  Claim C8, amended. When the probe succeeds with a title and with a duration that is
  \<open>None\<close>, zero or an \<open>int\<close> (and the user passes the membership and rate gates, the text
  holds a link and the transport works), the handler presents the menu of
  \<open>download_options\<close> for the link, whatever the formats are: best quality, the height tiers
  720p, 480p, 360p and 240p in this order, one audio-only option, the only one that
  extracts audio, and a cancel button. The format list of the probe result has distinct
  quality labels, heights that do not increase, at most 8 entries, each of them from a
  format with a URL that is not audio-only; the menu does not show it.
\<close>

theorem quality_menu_presented:
  assumes "extract_info env url = Some info"
    and "parse_formats (ri_formats info) = Inr tiers"
    and "ri_title info = Some t"
    and "\<forall>x. ri_duration info = FloatValue x \<longrightarrow> x = 0"
    and "extract_media_url text = Some url"
    and "passes_membership env (db w) user_id"
    and "fst (fst (can_proceed (now env) (limiter w) user_id 5))"
    and "transport_ok env"
  shows "returned (ytdlp_download_handler env user_id text w)
    \<and> calls (world_of (ytdlp_download_handler env user_id text w)) =
        calls w @ [ReplyText FETCHING_INFO, SendChatAction, GetVideoInfo url,
                   EditText SELECT_QUALITY (download_options url True True)]
    \<and> map caption (concat (download_options url True True)) =
        [BestQuality, Tier ''720p'', Tier ''480p'', Tier ''360p'', Tier ''240p'', AudioOnlyMP3, Cancel]
    \<and> map (selected_quality \<circ> callback_data) (concat (download_options url True True)) =
        [Some ''best'', Some ''720'', Some ''480'', Some ''360'', Some ''240'', Some ''audio'', None]
    \<and> map (snd \<circ> ytdlp_format) [''best'', ''720'', ''480'', ''360'', ''240'', ''audio''] =
        [False, False, False, False, False, True]
    \<and> distinct (map quality tiers)
    \<and> sorted_wrt (\<lambda>a b. sort_key_height b \<le> sort_key_height a) tiers
    \<and> length tiers \<le> 8
    \<and> set tiers \<subseteq> parsed_of ` {fmt \<in> set (ri_formats info). fmt_url fmt \<noteq> [] \<and>
                                  \<not> (vcodec fmt = ''none'' \<and> acodec fmt \<noteq> ''none'')}"
  using ytdlp_handler_menu [OF assms(1-3) _ assms(5-8)] assms(4) parse_formats_tiers [OF assms(2)]
    menu_captions [of url] menu_qualities [of url] audio_extraction
  by simp

theorem quality_menu_presented_witness:
  "returned (ytdlp_download_handler
       (probe_env [video_format ''135'' 480, video_format ''137'' 1080, video_format ''136'' 720,
                   video_format ''247'' 720, audio_format]) 7
       ''see https://youtube.com/watch?v=xyz.'' world0)
   \<and> map_sum id (map quality)
        (parse_formats [video_format ''135'' 480, video_format ''137'' 1080,
                        video_format ''136'' 720, video_format ''247'' 720, audio_format]) =
       Inr [''1080p'', ''720p'', ''480p'']"
proof -
  let ?fs = "[video_format ''135'' 480, video_format ''137'' 1080, video_format ''136'' 720,
              video_format ''247'' 720, audio_format]"
  have 1: "map_sum id (map quality) (parse_formats ?fs) = Inr [''1080p'', ''720p'', ''480p'']"
    by code_simp
  then obtain tiers where t: "parse_formats ?fs = Inr tiers"
    by (cases "parse_formats ?fs") auto
  let ?info = "\<lparr>ri_title = Some ''clip'', ri_duration = IntValue 213, ri_formats = ?fs\<rparr>"
  have t': "parse_formats (ri_formats ?info) = Inr tiers"
    using t by simp
  have n: "ri_title ?info = Some ''clip''"
    by simp
  have d: "\<forall>x. ri_duration ?info = FloatValue x \<longrightarrow> x = 0"
    by simp
  from quality_menu_presented [OF probe_env_facts(1) t' n d example_link probe_env_facts(3,4,2)] 1
  show ?thesis by simp
qed

subsection \<open>Verification\<close>

lemma check_direct_message_failures:
  "check_direct_message None code n = (False, [])"
  "direct_threads cl 20 = Inl e \<Longrightarrow> check_direct_message (Some cl) code n = (False, [])"
  "direct_threads cl 20 = Inr ts \<Longrightarrow> scan_threads cl code n ts = Inl e
     \<Longrightarrow> check_direct_message (Some cl) code n = (False, [])"
  "direct_threads cl 20 = Inr ts \<Longrightarrow> scan_threads cl code n ts = Inr False
     \<Longrightarrow> direct_pending_inbox cl = Inl e \<Longrightarrow> check_direct_message (Some cl) code n = (False, [])"
  "direct_threads cl 20 = Inr ts \<Longrightarrow> scan_threads cl code n ts = Inr False
     \<Longrightarrow> direct_pending_inbox cl = Inr ps \<Longrightarrow> scan_pending cl code n ps = Inl e
     \<Longrightarrow> check_direct_message (Some cl) code n = (False, [])"
  by (simp_all add: check_direct_message_def)

lemma scan_threads_found:
  "scan_threads cl code n ts = Inr True \<Longrightarrow>
   \<exists>t\<in>set ts. \<exists>ms. direct_messages cl t n = Inr ms \<and> list_ex (code_in_message code) ms"
  by (induction ts) (auto split: sum.splits if_splits)

lemma scan_pending_found:
  "scan_pending cl code n ts = Inr (Some t) \<Longrightarrow>
   t \<in> set ts \<and> (\<exists>ms. direct_messages cl t n = Inr ms \<and> list_ex (code_in_message code) ms)"
  by (induction ts) (auto split: sum.splits if_splits)

text \<open>The scan says "found" only for a code that is in a message of a thread.\<close>

lemma check_direct_message_sound:
  assumes "fst (check_direct_message (Some cl) code n)"
  shows "\<exists>t ms. direct_messages cl t n = Inr ms \<and> list_ex (code_in_message code) ms"
proof -
  from assms consider
      ts where "direct_threads cl 20 = Inr ts" "scan_threads cl code n ts = Inr True"
    | ps t where "direct_pending_inbox cl = Inr ps" "scan_pending cl code n ps = Inr (Some t)"
    by (auto simp: check_direct_message_def split: sum.splits bool.splits option.splits)
  then show ?thesis
  proof cases
    case 1
    then show ?thesis using scan_threads_found by blast
  next
    case 2
    then show ?thesis using scan_pending_found by blast
  qed
qed

lemma check_direct_message_not_found: "\<not> fst (check_direct_message c code n) \<Longrightarrow>
    check_direct_message c code n = (False, [])"
  by (auto simp: check_direct_message_def split: option.splits sum.splits bool.splits)

lemma verification_kept_run:
  assumes v: "get_verification (db w) vid = Some v"
    and nf: "\<not> instagram_initialized env
             \<or> \<not> fst (check_direct_message (ig_client env) (verification_code v) 50)"
    and ok: "transport_ok env"
  shows "check_verification env vid w =
         Return () (w\<lparr>calls := calls w @ [Answer, EditText VERIFICATION_PENDING []]
                       @ (if instagram_initialized env
                          then [CheckDirectMessage (verification_code v)] else [])
                       @ [EditText VERIFICATION_FAILED (verification_check vid)]\<rparr>)"
proof (cases "instagram_initialized env")
  case True
  then have "check_direct_message (ig_client env) (verification_code v) 50 = (False, [])"
    using nf check_direct_message_not_found by blast
  then show ?thesis using v True
    by (simp add: check_verification_def send_ok [OF ok] and_then_simps record_call_def
        scan_inbox_def)
next
  case False
  then show ?thesis using v
    by (simp add: check_verification_def send_ok [OF ok] and_then_simps record_call_def)
qed

lemma check_verification_keeps_record:
  assumes v: "get_verification (db w) vid = Some v"
    and nf: "\<not> instagram_initialized env
             \<or> \<not> fst (check_direct_message (ig_client env) (verification_code v) 50)"
  shows "db (world_of (check_verification env vid w)) = db w"
  using v nf
  by (auto simp: check_verification_def send_def and_then_def world_of_def record_call_def
      scan_inbox_def split: prod.splits)

text \<open>
  Claim C7. For a pending record that \<open>get_verification\<close> finds under the id, expired or
  not, a scan that does not find the code (no session, no client, a provider call that
  raises, or no message that contains the code) leaves the database as it was, whatever
  the transport does, so that the record is still found under the id. On a transport
  that works, the handler returns, and what it sends is the pending notice and then the
  message \<open>VERIFICATION_FAILED\<close> with the keyboard that offers the check again: neither
  the expiry message nor an exception. A provider call that raises makes the scan
  return \<open>False\<close>.
\<close>

theorem check_verification_not_found:
  assumes "get_verification (db w) vid = Some v"
    and "\<not> instagram_initialized env
         \<or> \<not> fst (check_direct_message (ig_client env) (verification_code v) 50)"
  shows "db (world_of (check_verification env vid w)) = db w
    \<and> get_verification (db (world_of (check_verification env vid w))) vid = Some v
    \<and> (if transport_ok env
        then check_verification env vid w =
             Return () (w\<lparr>calls := calls w @ [Answer, EditText VERIFICATION_PENDING []]
                           @ (if instagram_initialized env
                              then [CheckDirectMessage (verification_code v)] else [])
                           @ [EditText VERIFICATION_FAILED (verification_check vid)]\<rparr>)
        else True)
    \<and> check_direct_message None code n = (False, [])
    \<and> (case direct_threads cl 20 of
          Inl e \<Rightarrow> check_direct_message (Some cl) code n = (False, [])
        | Inr ts \<Rightarrow>
            (case scan_threads cl code n ts of
               Inl e \<Rightarrow> check_direct_message (Some cl) code n = (False, [])
             | Inr True \<Rightarrow> True
             | Inr False \<Rightarrow>
                 (case direct_pending_inbox cl of
                    Inl e \<Rightarrow> check_direct_message (Some cl) code n = (False, [])
                  | Inr ps \<Rightarrow>
                      (case scan_pending cl code n ps of
                         Inl e \<Rightarrow> check_direct_message (Some cl) code n = (False, [])
                       | Inr r \<Rightarrow> True))))"
proof -
  have 1: "db (world_of (check_verification env vid w)) = db w"
    using assms by (rule check_verification_keeps_record)
  have 2: "transport_ok env \<Longrightarrow> check_verification env vid w =
             Return () (w\<lparr>calls := calls w @ [Answer, EditText VERIFICATION_PENDING []]
                           @ (if instagram_initialized env
                              then [CheckDirectMessage (verification_code v)] else [])
                           @ [EditText VERIFICATION_FAILED (verification_check vid)]\<rparr>)"
    using assms by (rule verification_kept_run)
  have 3: "(case direct_threads cl 20 of
          Inl e \<Rightarrow> check_direct_message (Some cl) code n = (False, [])
        | Inr ts \<Rightarrow>
            (case scan_threads cl code n ts of
               Inl e \<Rightarrow> check_direct_message (Some cl) code n = (False, [])
             | Inr True \<Rightarrow> True
             | Inr False \<Rightarrow>
                 (case direct_pending_inbox cl of
                    Inl e \<Rightarrow> check_direct_message (Some cl) code n = (False, [])
                  | Inr ps \<Rightarrow>
                      (case scan_pending cl code n ps of
                         Inl e \<Rightarrow> check_direct_message (Some cl) code n = (False, [])
                       | Inr r \<Rightarrow> True))))"
    by (auto simp: check_direct_message_failures split: sum.splits bool.splits)
  show ?thesis
    using 1 2 3 assms(1) by (simp add: check_direct_message_failures(1))
qed

text \<open>The witness: a record that expires at 2000, at the time 1000, and a provider whose
  \<open>direct_threads\<close> raises.\<close>

theorem check_verification_not_found_witness:
  "check_verification (inbox_env (Inl ValueError) []) 1 (world_pending 2000) =
     Return () ((world_pending 2000)
        \<lparr>calls := [Answer, EditText VERIFICATION_PENDING [], CheckDirectMessage ''AB12CD34'',
                   EditText VERIFICATION_FAILED (verification_check 1)]\<rparr>)
   \<and> get_verification
        (db (world_of (check_verification (inbox_env (Inl ValueError) []) 1 (world_pending 2000))))
        1 = Some (pending_at 2000)
   \<and> now (inbox_env (Inl ValueError) []) < expires_at (pending_at 2000)"
proof -
  have v: "get_verification (db (world_pending 2000)) 1 = Some (pending_at 2000)"
    by (simp add: get_verification_def world_pending_def world0_def db0_def pending_at_def)
  have nf: "\<not> instagram_initialized (inbox_env (Inl ValueError) [])
         \<or> \<not> fst (check_direct_message (ig_client (inbox_env (Inl ValueError) []))
                     (verification_code (pending_at 2000)) 50)"
    by (simp add: inbox_env_def env0_def check_direct_message_def)
  have ok: "transport_ok (inbox_env (Inl ValueError) [])"
    by (simp add: transport_ok_def inbox_env_def env0_def)
  note th = check_verification_not_found [OF v nf, where code = "[]" and n = 0
      and cl = "\<lparr>direct_threads = (\<lambda>n. Inl ValueError), direct_messages = (\<lambda>t n. Inr []),
                direct_pending_inbox = Inr [], direct_thread_approve = (\<lambda>t. Inr ())\<rparr>"]
  from th have kept: "get_verification
        (db (world_of (check_verification (inbox_env (Inl ValueError) []) 1 (world_pending 2000))))
        1 = Some (pending_at 2000)"
    by (elim conjE)
  from th ok have run: "check_verification (inbox_env (Inl ValueError) []) 1 (world_pending 2000) =
      Return () ((world_pending 2000)
        \<lparr>calls := calls (world_pending 2000) @ [Answer, EditText VERIFICATION_PENDING []]
           @ (if instagram_initialized (inbox_env (Inl ValueError) [])
              then [CheckDirectMessage (verification_code (pending_at 2000))] else [])
           @ [EditText VERIFICATION_FAILED (verification_check 1)]\<rparr>)"
    by (elim conjE) (simp only: if_True)
  show ?thesis
    apply (intro conjI)
    subgoal
      by (subst run)
        (simp add: inbox_env_def env0_def pending_at_def world_pending_def world0_def)
    subgoal by (rule kept)
    subgoal by (simp add: inbox_env_def env0_def pending_at_def)
    done
qed

text \<open>
  Claim C3 at an expired record: the record of user 7 expired at time 500, and the clock
  reads 1000. \<open>check_verification\<close> does not read the expiry time. With an inbox that
  does not hold the code, the handler answers \<open>VERIFICATION_FAILED\<close>, not the expiry
  message, and the record stays, so that a second call does the same; with the code in
  the inbox, the handler accepts the expired code and the account of the user is
  verified.
\<close>

theorem check_verification_ignores_expiry:
  "expires_at (pending_at 500) < now (inbox_env (Inr [10]) [Some ''hello''])
   \<and> check_verification (inbox_env (Inr [10]) [Some ''hello'']) 1 (world_pending 500) =
       Return () ((world_pending 500)
         \<lparr>calls := [Answer, EditText VERIFICATION_PENDING [], CheckDirectMessage ''AB12CD34'',
                    EditText VERIFICATION_FAILED (verification_check 1)]\<rparr>)
   \<and> get_verification
        (db (world_of (check_verification (inbox_env (Inr [10]) [Some ''hello'']) 1
               (world_pending 500)))) 1 = Some (pending_at 500)
   \<and> calls (world_of (check_verification (inbox_env (Inr [10]) [Some ''code AB12CD34'']) 1
               (world_pending 500))) =
       [Answer, EditText VERIFICATION_PENDING [], CheckDirectMessage ''AB12CD34'',
        EditText (VERIFICATION_SUCCESS ''alice'') back_button]
   \<and> has_verified_account
        (db (world_of (check_verification (inbox_env (Inr [10]) [Some ''code AB12CD34'']) 1
               (world_pending 500)))) 7
   \<and> \<not> has_verified_account (db (world_pending 500)) 7"
  by (simp add: check_verification_def inbox_env_def env0_def world_pending_def world0_def db0_def
      pending_at_def get_verification_def send_def and_then_def record_call_def scan_inbox_def
      check_direct_message_def code_in_message_def world_of_def has_verified_account_def
      mark_verified_def get_user_instagram_accounts_def verify_instagram_account_def
      delete_verification_def)

subsection \<open>Download handlers\<close>

lemmas run_defs = download_handler_def download_try_def perform_download_def
  perform_download_try_def check_membership_middleware_def send_def and_then_def bind_def
  evaluate_def duration_str_def truthy_def format_duration_def
  record_call_def download_with_ytdlp_def get_media_info_def download_media_def
  get_file_size_def cleanup_file_def open_file_def world_of_def returned_def
  record_ytdlp_download_def add_download_def increment_download_count_def
  has_verified_account_def is_user_banned_def can_proceed_def stamp_def write_files_def

lemmas fixture_defs = env0_def world0_def db0_def world_verified_def album_env_def clip_def
  ytdlp_env_def upload_fails_def

lemma example_post:
  "extract_instagram_url ''https://instagram.com/p/ABC123/'' = Some ''https://instagram.com/p/ABC123''"
  by code_simp

lemma download_handler_unverified:
  assumes "\<not> has_verified_account (db w) uid"
  shows "files (world_of (download_handler env uid text w)) = files w"
    and "db (world_of (download_handler env uid text w)) = db w"
    and "\<exists>cs. calls (world_of (download_handler env uid text w)) = calls w @ cs
            \<and> list_all (\<lambda>c. \<not> is_fetch c \<and> \<not> is_delivery c) cs"
    and "passes_membership env (db w) uid
         \<Longrightarrow> \<not> raises env (length (calls w)) (ReplyText NO_VERIFIED_ACCOUNT)
         \<Longrightarrow> download_handler env uid text w =
             Return () (record_call (ReplyText NO_VERIFIED_ACCOUNT) w)"
  using assms
  by (auto simp: download_handler_def check_membership_middleware_def send_def and_then_def
      bind_def record_call_def world_of_def is_fetch_def is_delivery_def passes_membership_def)

text \<open>
  Claim C2. For a user without a verified account, \<open>download_handler\<close> makes no call on
  a backend and no upload, and leaves the files and the database as they are, whatever
  the text and the collaborators are; when the user passes the membership check and the
  reply does not raise, all it does is to reply \<open>NO_VERIFIED_ACCOUNT\<close>. Hence an upload
  by \<open>download_handler\<close> implies a verified account of the user.
\<close>

theorem download_handler_requires_verified:
  "(\<not> has_verified_account (db w) uid \<longrightarrow>
      files (world_of (download_handler env uid text w)) = files w
      \<and> db (world_of (download_handler env uid text w)) = db w
      \<and> (\<exists>cs. calls (world_of (download_handler env uid text w)) = calls w @ cs
             \<and> list_all (\<lambda>c. \<not> is_fetch c \<and> \<not> is_delivery c) cs)
      \<and> (passes_membership env (db w) uid
           \<and> \<not> raises env (length (calls w)) (ReplyText NO_VERIFIED_ACCOUNT)
         \<longrightarrow> download_handler env uid text w =
             Return () (record_call (ReplyText NO_VERIFIED_ACCOUNT) w)))
   \<and> (list_ex is_delivery (drop (length (calls w)) (calls (world_of (download_handler env uid text w))))
      \<longrightarrow> has_verified_account (db w) uid)"
proof -
  have "has_verified_account (db w) uid"
    if d: "list_ex is_delivery
             (drop (length (calls w)) (calls (world_of (download_handler env uid text w))))"
  proof (rule ccontr)
    assume n: "\<not> has_verified_account (db w) uid"
    from download_handler_unverified(3) [OF n, of env "text"] obtain cs where
      "calls (world_of (download_handler env uid text w)) = calls w @ cs"
      "list_all (\<lambda>c. \<not> is_fetch c \<and> \<not> is_delivery c) cs"
      by blast
    with d show False by (auto simp: list_all_iff list_ex_iff)
  qed
  then show ?thesis
    using download_handler_unverified [of w uid env "text"] by blast
qed

text \<open>The witness: the scenario of the specification, the link
  \<^verbatim>\<open>https://instagram.com/p/ABC123/\<close> from a user who has no account at all.\<close>

theorem download_handler_requires_verified_witness:
  "\<not> has_verified_account (db world0) 7
   \<and> download_handler env0 7 ''https://instagram.com/p/ABC123/'' world0 =
       Return () (record_call (ReplyText NO_VERIFIED_ACCOUNT) world0)
   \<and> calls (record_call (ReplyText NO_VERIFIED_ACCOUNT) world0) = [ReplyText NO_VERIFIED_ACCOUNT]"
proof -
  have n: "\<not> has_verified_account (db world0) 7"
    by (simp add: has_verified_account_def world0_def db0_def)
  have m: "passes_membership env0 (db world0) 7
           \<and> \<not> raises env0 (length (calls world0)) (ReplyText NO_VERIFIED_ACCOUNT)"
    by (simp add: passes_membership_def env0_def world0_def db0_def is_user_banned_def)
  from download_handler_requires_verified [of world0 7 env0 "''https://instagram.com/p/ABC123/''"] n m
  have "download_handler env0 7 ''https://instagram.com/p/ABC123/'' world0 =
       Return () (record_call (ReplyText NO_VERIFIED_ACCOUNT) world0)"
    by blast
  then show ?thesis using n by (simp add: record_call_def world0_def)
qed

lemma send_files_run:
  assumes ok: "transport_ok env"
  shows "\<exists>w' cs. send_files env uid url mi ps w = Return () w'
     \<and> files w' = (\<lambda>p. if p \<in> set ps then None else files w p)
     \<and> users (db w') = users (db w)
     \<and> limiter w' = limiter w
     \<and> calls w' = calls w @ cs
     \<and> set cs = instagram_delivery ` deliverable w ps
                 \<union> (if oversized w ps = {} then {} else {ReplyText FILE_TOO_LARGE})"
proof (induction ps arbitrary: w)
  case Nil
  then show ?case by (simp add: deliverable_def oversized_def)
next
  case (Cons p rest)
  show ?case
  proof (cases "files w p = None")
    case True
    from Cons.IH [of w] obtain w' cs where
      r: "send_files env uid url mi rest w = Return () w'"
      and f: "files w' = (\<lambda>q. if q \<in> set rest then None else files w q)"
      and u: "users (db w') = users (db w)" "limiter w' = limiter w"
      and c: "calls w' = calls w @ cs"
      and s: "set cs = instagram_delivery ` deliverable w rest
                 \<union> (if oversized w rest = {} then {} else {ReplyText FILE_TOO_LARGE})"
      by blast
    have d: "deliverable w (p # rest) = deliverable w rest" "oversized w (p # rest) = oversized w rest"
      using True by (auto simp: deliverable_def oversized_def)
    have f': "files w' = (\<lambda>q. if q \<in> set (p # rest) then None else files w q)"
      using f True by auto
    show ?thesis using True r f' u c s d by simp
  next
    case False
    then obtain n where n: "files w p = Some n" by auto
    show ?thesis
    proof (cases "get_file_size w p > 50 * 1024 * 1024")
      case True
      let ?w1 = "cleanup_file p (record_call (ReplyText FILE_TOO_LARGE) w)"
      have w1: "files ?w1 = (files w)(p := None)" "db ?w1 = db w" "limiter ?w1 = limiter w"
        "calls ?w1 = calls w @ [ReplyText FILE_TOO_LARGE]"
        using n by (simp_all add: cleanup_file_def record_call_def)
      from Cons.IH [of ?w1] obtain w' cs where
        r: "send_files env uid url mi rest ?w1 = Return () w'"
        and f: "files w' = (\<lambda>q. if q \<in> set rest then None else files ?w1 q)"
        and u: "users (db w') = users (db ?w1)" "limiter w' = limiter ?w1"
        and c: "calls w' = calls ?w1 @ cs"
        and s: "set cs = instagram_delivery ` deliverable ?w1 rest
                 \<union> (if oversized ?w1 rest = {} then {} else {ReplyText FILE_TOO_LARGE})"
        by blast
      have d: "deliverable ?w1 rest = deliverable w (p # rest)"
        using True n w1(1) by (auto simp: deliverable_def get_file_size_def)
      have o: "oversized w (p # rest) \<noteq> {}"
        using True n by (auto simp: oversized_def)
      have run: "send_files env uid url mi (p # rest) w = Return () w'"
        using n True r by (simp add: send_ok [OF ok])
      have f': "files w' = (\<lambda>q. if q \<in> set (p # rest) then None else files w q)"
        unfolding f w1 by auto
      have c': "calls w' = calls w @ (ReplyText FILE_TOO_LARGE # cs)"
        using c w1 by simp
      have s': "set (ReplyText FILE_TOO_LARGE # cs) = instagram_delivery ` deliverable w (p # rest)
                 \<union> (if oversized w (p # rest) = {} then {} else {ReplyText FILE_TOO_LARGE})"
        using s d o by auto
      have u': "users (db w') = users (db w)" "limiter w' = limiter w"
        using u w1 by simp_all
      show ?thesis using run f' u' c' s' by blast
    next
      case notbig: False
      let ?w0 = "record_call (instagram_delivery p) w"
      let ?w1 = "(cleanup_file p ?w0)\<lparr>db := add_download (db ?w0) uid (mi_media_type mi) url
                              (Some (mi_username mi)) (get_file_size w p)\<rparr>"
      have w1: "files ?w1 = (files w)(p := None)" "users (db ?w1) = users (db w)"
        "limiter ?w1 = limiter w" "calls ?w1 = calls w @ [instagram_delivery p]"
        using n by (simp_all add: cleanup_file_def record_call_def add_download_def)
      from Cons.IH [of ?w1] obtain w' cs where
        r: "send_files env uid url mi rest ?w1 = Return () w'"
        and f: "files w' = (\<lambda>q. if q \<in> set rest then None else files ?w1 q)"
        and u: "users (db w') = users (db ?w1)" "limiter w' = limiter ?w1"
        and c: "calls w' = calls ?w1 @ cs"
        and s: "set cs = instagram_delivery ` deliverable ?w1 rest
                 \<union> (if oversized ?w1 rest = {} then {} else {ReplyText FILE_TOO_LARGE})"
        by blast
      have d: "deliverable w (p # rest) = insert p (deliverable ?w1 rest)"
        using notbig n w1(1) by (auto simp: deliverable_def get_file_size_def)
      have o: "oversized ?w1 rest = oversized w (p # rest)"
        using notbig n w1(1) by (auto simp: oversized_def get_file_size_def)
      have run: "send_files env uid url mi (p # rest) w = Return () w'"
        using n notbig r by (simp add: send_ok [OF ok])
      have f': "files w' = (\<lambda>q. if q \<in> set (p # rest) then None else files w q)"
        unfolding f w1 by auto
      have c': "calls w' = calls w @ (instagram_delivery p # cs)"
        using c w1 by simp
      have s': "set (instagram_delivery p # cs) = instagram_delivery ` deliverable w (p # rest)
                 \<union> (if oversized w (p # rest) = {} then {} else {ReplyText FILE_TOO_LARGE})"
        using s d o by auto
      have u': "users (db w') = users (db w)" "limiter w' = limiter w"
        using u w1 by simp_all
      show ?thesis using run f' u' c' s' by blast
    qed
  qed
qed

lemma write_files_None:
  "(write_files fs m p = None) = (m p = None \<and> p \<notin> fst ` set fs)"
  unfolding write_files_def
  by (induction fs arbitrary: m) (auto split: prod.splits)

lemma write_files_other: "p \<notin> fst ` set fs \<Longrightarrow> write_files fs m p = m p"
  unfolding write_files_def
  by (induction fs arbitrary: m) (auto split: prod.splits)

lemma instagram_delivery_inj: "instagram_delivery p = instagram_delivery q \<Longrightarrow> p = q"
  by (auto simp: instagram_delivery_def Let_def split: if_splits)

lemma download_handler_carousel:
  assumes ok: "transport_ok env"
    and member: "passes_membership env (db w) uid"
    and verified: "has_verified_account (db w) uid"
    and rate: "fst (fst (can_proceed (now env) (limiter w) uid 5))"
    and link: "extract_instagram_url text = Some url"
    and session: "instagram_initialized env"
    and info: "media_info_of env url = Some mi"
    and fetched: "media_files_of env url = Some fs" "fs \<noteq> []"
  shows "\<exists>w' cs. download_handler env uid text w = Return () w'
      \<and> calls w' = calls w @ [ReplyText DOWNLOADING, SendChatAction, GetMediaInfo url,
                               EditText PROCESSING [], DownloadMedia url, EditText UPLOADING []]
                    @ cs @ [DeleteStatus]
      \<and> set cs = instagram_delivery `
                     {p \<in> fst ` set fs. \<exists>n. write_files fs (files w) p = Some n
                                              \<and> int n \<le> 50 * 1024 * 1024}
                   \<union> (if {p \<in> fst ` set fs. \<exists>n. write_files fs (files w) p = Some n
                                              \<and> 50 * 1024 * 1024 < int n} = {}
                       then {} else {ReplyText FILE_TOO_LARGE})
      \<and> files w' = (\<lambda>p. if p \<in> fst ` set fs then None else files w p)
      \<and> users (db w') = users (increment_download_count (db w) uid)"
proof -
  obtain wt rl where cp: "can_proceed (now env) (limiter w) uid 5 = ((True, wt), rl)"
    using rate by (cases "can_proceed (now env) (limiter w) uid 5") auto
  define w5 where "w5 = w\<lparr>limiter := rl, files := write_files fs (files w),
      calls := calls w @ [ReplyText DOWNLOADING, SendChatAction, GetMediaInfo url,
                          EditText PROCESSING [], DownloadMedia url, EditText UPLOADING []]\<rparr>"
  from send_files_run [OF ok, of uid url mi "map fst fs" w5] obtain w6 cs where
    r: "send_files env uid url mi (map fst fs) w5 = Return () w6"
    and f: "files w6 = (\<lambda>p. if p \<in> set (map fst fs) then None else files w5 p)"
    and u: "users (db w6) = users (db w5)"
    and c: "calls w6 = calls w5 @ cs"
    and s: "set cs = instagram_delivery ` deliverable w5 (map fst fs)
                 \<union> (if oversized w5 (map fst fs) = {} then {} else {ReplyText FILE_TOO_LARGE})"
    by blast
  let ?w' = "(record_call DeleteStatus w6)\<lparr>db := increment_download_count (db w6) uid\<rparr>"
  have run: "download_handler env uid text w = Return () ?w'"
    using fetched(2) r [unfolded w5_def]
    by (simp add: download_handler_def membership_passes [OF member] verified cp link
        and_then_simps send_ok [OF ok] download_try_def session get_media_info_def info
        download_media_def fetched(1) record_call_def Let_def)
  have d: "deliverable w5 (map fst fs) =
            {p \<in> fst ` set fs. \<exists>n. write_files fs (files w) p = Some n \<and> int n \<le> 50 * 1024 * 1024}"
    by (auto simp: deliverable_def w5_def get_file_size_def)
  have o: "oversized w5 (map fst fs) =
            {p \<in> fst ` set fs. \<exists>n. write_files fs (files w) p = Some n \<and> 50 * 1024 * 1024 < int n}"
    by (auto simp: oversized_def w5_def get_file_size_def)
  have f': "files ?w' = (\<lambda>p. if p \<in> fst ` set fs then None else files w p)"
    using f by (auto simp: record_call_def w5_def fun_eq_iff write_files_other)
  have c': "calls ?w' = calls w @ [ReplyText DOWNLOADING, SendChatAction, GetMediaInfo url,
                               EditText PROCESSING [], DownloadMedia url, EditText UPLOADING []]
                    @ cs @ [DeleteStatus]"
    using c by (simp add: record_call_def w5_def)
  have u': "users (db ?w') = users (increment_download_count (db w) uid)"
    using u by (simp add: w5_def increment_download_count_def split: option.splits)
  show ?thesis
    using run c' s f' u' unfolding d o by blast
qed

text \<open>
  Claim C10. When the transport works and the gates are passed (membership, verified
  account, rate limit, a link in the text), and the session resolves the post and
  downloads a non-empty list of files, \<open>download_handler\<close> returns, and between the
  notice \<open>UPLOADING\<close> and the deletion of the status message it sends exactly: an upload
  of each downloaded file of at most 50 MiB, and the notice \<open>FILE_TOO_LARGE\<close> when some
  file is larger. Every downloaded file, uploaded or rejected, is gone from the disk
  afterwards, and the users table is the one that a single
  \<open>increment_download_count\<close> gives: the counter of the user is one more than before,
  however many files were rejected.
\<close>

theorem carousel_delivery:
  assumes "transport_ok env"
    and "passes_membership env (db w) uid"
    and "has_verified_account (db w) uid"
    and "fst (fst (can_proceed (now env) (limiter w) uid 5))"
    and "extract_instagram_url text = Some url"
    and "instagram_initialized env"
    and "media_info_of env url = Some mi"
    and "media_files_of env url = Some fs"
    and "fs \<noteq> []"
  shows "\<exists>w' cs. download_handler env uid text w = Return () w'
      \<and> calls w' = calls w @ [ReplyText DOWNLOADING, SendChatAction, GetMediaInfo url,
                               EditText PROCESSING [], DownloadMedia url, EditText UPLOADING []]
                    @ cs @ [DeleteStatus]
      \<and> set cs = instagram_delivery `
                     {p \<in> fst ` set fs. \<exists>n. write_files fs (files w) p = Some n
                                              \<and> int n \<le> 50 * 1024 * 1024}
                   \<union> (if {p \<in> fst ` set fs. \<exists>n. write_files fs (files w) p = Some n
                                              \<and> 50 * 1024 * 1024 < int n} = {}
                       then {} else {ReplyText FILE_TOO_LARGE})
      \<and> files w' = (\<lambda>p. if p \<in> fst ` set fs then None else files w p)
      \<and> users (db w') = users (increment_download_count (db w) uid)
      \<and> map_option download_count (users (db w') uid) =
          map_option (\<lambda>u. download_count u + 1) (users (db w) uid)"
proof -
  from download_handler_carousel [OF assms] obtain w' cs where
    h: "download_handler env uid text w = Return () w'"
      "calls w' = calls w @ [ReplyText DOWNLOADING, SendChatAction, GetMediaInfo url,
                               EditText PROCESSING [], DownloadMedia url, EditText UPLOADING []]
                    @ cs @ [DeleteStatus]"
      "set cs = instagram_delivery `
                     {p \<in> fst ` set fs. \<exists>n. write_files fs (files w) p = Some n
                                              \<and> int n \<le> 50 * 1024 * 1024}
                   \<union> (if {p \<in> fst ` set fs. \<exists>n. write_files fs (files w) p = Some n
                                              \<and> 50 * 1024 * 1024 < int n} = {}
                       then {} else {ReplyText FILE_TOO_LARGE})"
      "files w' = (\<lambda>p. if p \<in> fst ` set fs then None else files w p)"
      "users (db w') = users (increment_download_count (db w) uid)"
    by blast
  have "map_option download_count (users (db w') uid) =
          map_option (\<lambda>u. download_count u + 1) (users (db w) uid)"
    unfolding h(5) by (simp add: increment_download_count_def split: option.splits)
  with h show ?thesis by blast
qed

lemmas ext_defs = instagram_delivery_def ytdlp_delivery_def splitext_ext_def basename_def
  lower_def lower_char_def in_range_def ord_def

lemma album_run:
  "calls (world_of (download_handler album_env 7 ''https://instagram.com/p/ABC123/'' world_verified)) =
     [ReplyText DOWNLOADING, SendChatAction, GetMediaInfo ''https://instagram.com/p/ABC123'',
      EditText PROCESSING [], DownloadMedia ''https://instagram.com/p/ABC123'', EditText UPLOADING [],
      ReplyPhoto ''downloads/a.jpg'', ReplyText FILE_TOO_LARGE, ReplyPhoto ''downloads/c.jpg'',
      DeleteStatus]"
  by (simp add: run_defs fixture_defs example_post ext_defs)

text \<open>The witness: the album of three files, of 1000 bytes, 50 MiB + 1 byte and 50 MiB:
  the second is rejected, the other two are uploaded, all three are removed, and the
  counter goes from 4 to 5.\<close>

theorem carousel_delivery_witness:
  "returned (download_handler album_env 7 ''https://instagram.com/p/ABC123/'' world_verified)
   \<and> map_option download_count
        (users (db (world_of (download_handler album_env 7 ''https://instagram.com/p/ABC123/''
                                world_verified))) 7) = Some 5
   \<and> files (world_of (download_handler album_env 7 ''https://instagram.com/p/ABC123/''
                        world_verified)) = Map.empty
   \<and> calls (world_of (download_handler album_env 7 ''https://instagram.com/p/ABC123/''
                        world_verified)) =
     [ReplyText DOWNLOADING, SendChatAction, GetMediaInfo ''https://instagram.com/p/ABC123'',
      EditText PROCESSING [], DownloadMedia ''https://instagram.com/p/ABC123'', EditText UPLOADING [],
      ReplyPhoto ''downloads/a.jpg'', ReplyText FILE_TOO_LARGE, ReplyPhoto ''downloads/c.jpg'',
      DeleteStatus]"
proof -
  let ?fs = "[(''downloads/a.jpg'', 1000::nat), (''downloads/b.mp4'', 52428801),
              (''downloads/c.jpg'', 52428800)]"
  let ?mi = "\<lparr>mi_media_type = ''album'', mi_username = ''alice'', like_count = 10,
              comment_count = 2, mi_caption = ''hi''\<rparr>"
  have p1: "transport_ok album_env"
    by (simp add: transport_ok_def fixture_defs)
  have p2: "passes_membership album_env (db world_verified) 7"
    by (simp add: passes_membership_def fixture_defs is_user_banned_def)
  have p3: "has_verified_account (db world_verified) 7"
    by (simp add: has_verified_account_def fixture_defs)
  have p4: "fst (fst (can_proceed (now album_env) (limiter world_verified) 7 5))"
    by (simp add: can_proceed_def fixture_defs)
  have p6: "instagram_initialized album_env" by (simp add: fixture_defs)
  have p7: "media_info_of album_env ''https://instagram.com/p/ABC123'' = Some ?mi"
    by (simp add: fixture_defs)
  have p8: "media_files_of album_env ''https://instagram.com/p/ABC123'' = Some ?fs"
    by (simp add: fixture_defs)
  have p9: "?fs \<noteq> []" by simp
  from carousel_delivery [OF p1 p2 p3 p4 example_post p6 p7 p8 p9] obtain w' cs where
    h: "download_handler album_env 7 ''https://instagram.com/p/ABC123/'' world_verified = Return () w'"
    and f: "files w' = (\<lambda>p. if p \<in> fst ` set ?fs then None else files world_verified p)"
    and c: "map_option download_count (users (db w') 7) =
            map_option (\<lambda>u. download_count u + 1) (users (db world_verified) 7)"
    by blast
  have w: "world_of (download_handler album_env 7 ''https://instagram.com/p/ABC123/'' world_verified) = w'"
    by (simp add: h world_of_def)
  have 1: "returned (download_handler album_env 7 ''https://instagram.com/p/ABC123/'' world_verified)"
    by (simp add: h returned_def)
  have "map_option download_count (users (db w') 7) = Some 5"
    using c by (simp add: fixture_defs)
  then have 2: "map_option download_count
        (users (db (world_of (download_handler album_env 7 ''https://instagram.com/p/ABC123/''
                                world_verified))) 7) = Some 5"
    by (simp only: w)
  have "files w' = Map.empty"
    using f by (simp add: fixture_defs fun_eq_iff)
  then have 3: "files (world_of (download_handler album_env 7 ''https://instagram.com/p/ABC123/''
                        world_verified)) = Map.empty"
    by (simp only: w)
  show ?thesis using 1 2 3 album_run by blast
qed

text \<open>
  The size gate of \<open>_perform_download\<close>, on a transport that works: a file of more than
  50 MiB is announced as too large and not uploaded, a file of at most 50 MiB is
  uploaded, and in both cases the file is removed.
\<close>

lemma perform_download_size_gate:
  assumes ok: "transport_ok env" and fetch: "ytdlp_fetch env url q = Some r"
    and whole: "\<And>x. duration r = FloatValue x \<Longrightarrow> x = 0"
  shows "returned (perform_download env uid url q w)"
    and "calls (world_of (perform_download env uid url q w)) =
           calls w @ [SendChatAction, DownloadWithYtdlp url q, EditText UPLOADING [],
                      if 50 * 1024 * 1024 < int (written r) then ReplyText FILE_TOO_LARGE
                      else ytdlp_delivery r,
                      DeleteStatus]"
    and "files (world_of (perform_download env uid url q w)) = (files w)(filepath r := None)"
  by (simp_all add: perform_download_def perform_download_try_def send_ok [OF ok] and_then_simps
      download_with_ytdlp_def fetch record_call_def get_file_size_def cleanup_file_def
      open_file_def record_ytdlp_download_def world_of_def returned_def
      duration_str_formats [OF whole])

text \<open>
  Claim C4 at the fetch that has no size gate. User 7 has a verified account and sends an
  Instagram link to a bot without a session, so that \<open>download_handler\<close> falls back to
  yt-dlp, which writes a file of 50 MiB + 1 byte: the handler uploads the file as a
  document and sends no \<open>FILE_TOO_LARGE\<close>. The same file from \<open>_perform_download\<close> is
  rejected and removed, and a file of exactly 50 MiB is uploaded there.
\<close>

theorem fallback_has_no_size_gate:
  "calls (world_of (download_handler (ytdlp_env 52428801) 7 ''https://instagram.com/p/ABC123/''
                      world_verified)) =
     [ReplyText DOWNLOADING, SendChatAction,
      DownloadWithYtdlp ''https://instagram.com/p/ABC123'' ''best'', EditText UPLOADING [],
      ReplyDocument ''downloads/clip.mp4'', DeleteStatus]
   \<and> calls (world_of (perform_download (ytdlp_env 52428801) 7 ''https://youtu.be/x'' ''best''
                        world_verified)) =
     [SendChatAction, DownloadWithYtdlp ''https://youtu.be/x'' ''best'', EditText UPLOADING [],
      ReplyText FILE_TOO_LARGE, DeleteStatus]
   \<and> files (world_of (perform_download (ytdlp_env 52428801) 7 ''https://youtu.be/x'' ''best''
                        world_verified)) ''downloads/clip.mp4'' = None
   \<and> calls (world_of (perform_download (ytdlp_env 52428800) 7 ''https://youtu.be/x'' ''best''
                        world_verified)) =
     [SendChatAction, DownloadWithYtdlp ''https://youtu.be/x'' ''best'', EditText UPLOADING [],
      ReplyVideo ''downloads/clip.mp4'', DeleteStatus]"
  by (simp add: run_defs fixture_defs example_post ext_defs)

text \<open>
  Claim C5 at an upload that raises. In \<open>_perform_download\<close> the exception of the upload
  reaches the handler of the \<open>try\<close> block, which edits the status message: the
  downloaded file of 1000 bytes is still on the disk when the function returns. In the
  loop of \<open>download_handler\<close> the first upload raises, and the three files of the album
  are all left on the disk.
\<close>

theorem upload_failure_leaves_files:
  "perform_download (upload_fails (ytdlp_env 1000)) 7 ''https://youtu.be/x'' ''best'' world_verified =
     Return () (world_verified
       \<lparr>files := [''downloads/clip.mp4'' \<mapsto> 1000],
        calls := [SendChatAction, DownloadWithYtdlp ''https://youtu.be/x'' ''best'',
                  EditText UPLOADING [], EditText (DOWNLOAD_FAILED (ErrorText TelegramError)) []]\<rparr>)
   \<and> calls (world_of (download_handler (upload_fails album_env) 7
                        ''https://instagram.com/p/ABC123/'' world_verified)) =
     [ReplyText DOWNLOADING, SendChatAction, GetMediaInfo ''https://instagram.com/p/ABC123'',
      EditText PROCESSING [], DownloadMedia ''https://instagram.com/p/ABC123'', EditText UPLOADING [],
      EditText (DOWNLOAD_FAILED (ErrorText TelegramError)) []]
   \<and> map (files (world_of (download_handler (upload_fails album_env) 7
                        ''https://instagram.com/p/ABC123/'' world_verified)))
         [''downloads/a.jpg'', ''downloads/b.mp4'', ''downloads/c.jpg''] =
     [Some 1000, Some 52428801, Some 52428800]"
  by (simp add: run_defs fixture_defs example_post ext_defs is_delivery_def)

subsection \<open>Links\<close>

lemma strip_literal_Some: "(strip_literal l s = Some r) = (s = l @ r)"
  by (induction l s rule: strip_literal.induct) auto

lemma strip_literal_append: "strip_literal l (l @ r) = Some r"
  by (simp add: strip_literal_Some)

lemma lit_Some: "(lit l k s = Some e) = (\<exists>r. s = l @ r \<and> k r = Some e)"
  by (auto simp: lit_def strip_literal_Some strip_literal_append split: option.splits)

lemma alt_Some: "alt ls k s = Some e \<Longrightarrow> \<exists>l\<in>set ls. \<exists>r. s = l @ r \<and> k r = Some e"
  by (induction ls) (auto simp: strip_literal_Some split: option.splits)

lemma opt_alt_Some:
  "opt_alt ls k s = Some e \<Longrightarrow> (\<exists>l\<in>set ls. \<exists>r. s = l @ r \<and> k r = Some e) \<or> k s = Some e"
  by (auto simp: opt_alt_def split: option.splits dest: alt_Some)

lemma plus_class_Some:
  "plus_class cls k s = Some e \<Longrightarrow>
   \<exists>run r. s = run @ r \<and> run \<noteq> [] \<and> (\<forall>c\<in>set run. cls c) \<and> k r = Some e"
proof -
  assume a: "plus_class cls k s = Some e"
  then have "takeWhile cls s \<noteq> []" "k (dropWhile cls s) = Some e"
    by (auto simp: plus_class_def split: if_splits)
  moreover have "s = takeWhile cls s @ dropWhile cls s" by simp
  moreover have "\<forall>c\<in>set (takeWhile cls s). cls c" by (auto dest: set_takeWhileD)
  ultimately show ?thesis by blast
qed

lemma re_search_Some:
  "re_search m s = Some u \<Longrightarrow>
   \<exists>pre t rest. s = pre @ t \<and> m t = Some rest \<and> u = take (length t - length rest) t"
proof (induction s)
  case Nil
  then show ?case by simp
next
  case (Cons c cs)
  show ?case
  proof (cases "m (c # cs)")
    case None
    with Cons obtain pre t rest where "cs = pre @ t" "m t = Some rest"
      "u = take (length t - length rest) t" by auto
    then have "c # cs = (c # pre) @ t" by simp
    then show ?thesis using \<open>m t = Some rest\<close> \<open>u = take (length t - length rest) t\<close> by blast
  next
    case (Some rest)
    with Cons.prems have "u = take (length (c # cs) - length rest) (c # cs)" by simp
    then show ?thesis using Some by (intro exI [of _ "[]"] exI [of _ "c # cs"] exI [of _ rest]) simp
  qed
qed

lemma post_pattern_shape:
  assumes "post_pattern t = Some rest"
  shows "\<exists>pre www kind run. t = pre @ www @ ''instagram.com/'' @ kind @ ''/'' @ run @ rest
           \<and> pre \<in> {[], ''https://'', ''http://''} \<and> www \<in> {[], ''www.''}
           \<and> kind \<in> {''p'', ''reel'', ''tv''} \<and> run \<noteq> [] \<and> (\<forall>c\<in>set run. shortcode_char c)"
proof -
  let ?body = "lit ''instagram.com/''
             (alt [''p'', ''reel'', ''tv''] (lit ''/'' (plus_class shortcode_char Some)))"
  have body: "\<exists>kind run. s = ''instagram.com/'' @ kind @ ''/'' @ run @ rest
           \<and> kind \<in> {''p'', ''reel'', ''tv''} \<and> run \<noteq> [] \<and> (\<forall>c\<in>set run. shortcode_char c)"
    if "?body s = Some rest" for s
  proof -
    from that obtain r1 where r1: "s = ''instagram.com/'' @ r1"
      "alt [''p'', ''reel'', ''tv''] (lit ''/'' (plus_class shortcode_char Some)) r1 = Some rest"
      unfolding lit_Some by blast
    from alt_Some [OF r1(2)] obtain kind r2 where k: "kind \<in> set [''p'', ''reel'', ''tv'']"
      "r1 = kind @ r2" "lit ''/'' (plus_class shortcode_char Some) r2 = Some rest" by blast
    from k(3) obtain r3 where r3: "r2 = ''/'' @ r3" "plus_class shortcode_char Some r3 = Some rest"
      unfolding lit_Some by blast
    from plus_class_Some [OF r3(2)] obtain run r4 where
      "r3 = run @ r4" "run \<noteq> []" "\<forall>c\<in>set run. shortcode_char c" "Some r4 = Some rest" by blast
    then show ?thesis using r1(1) k(1,2) r3(1) by auto
  qed
  have www: "\<exists>www kind run. s = www @ ''instagram.com/'' @ kind @ ''/'' @ run @ rest
           \<and> www \<in> {[], ''www.''}
           \<and> kind \<in> {''p'', ''reel'', ''tv''} \<and> run \<noteq> [] \<and> (\<forall>c\<in>set run. shortcode_char c)"
    if w: "opt_alt [''www.''] ?body s = Some rest" for s
  proof -
    from opt_alt_Some [OF w] consider r where "s = ''www.'' @ r" "?body r = Some rest"
      | "?body s = Some rest" by auto
    then show ?thesis
    proof cases
      case 1
      from body [OF 1(2)] obtain kind run where
        "r = ''instagram.com/'' @ kind @ ''/'' @ run @ rest" "kind \<in> {''p'', ''reel'', ''tv''}"
        "run \<noteq> []" "\<forall>c\<in>set run. shortcode_char c" by blast
      then show ?thesis using 1(1)
        by (intro exI [of _ "''www.''"] exI [of _ kind] exI [of _ run]) simp
    next
      case 2
      from body [OF 2] obtain kind run where
        "s = ''instagram.com/'' @ kind @ ''/'' @ run @ rest" "kind \<in> {''p'', ''reel'', ''tv''}"
        "run \<noteq> []" "\<forall>c\<in>set run. shortcode_char c" by blast
      then show ?thesis
        by (intro exI [of _ "[]"] exI [of _ kind] exI [of _ run]) simp
    qed
  qed
  from opt_alt_Some [OF assms [unfolded post_pattern_def]]
  consider l r where "l \<in> set [''https://'', ''http://'']" "t = l @ r"
      "opt_alt [''www.''] ?body r = Some rest"
    | "opt_alt [''www.''] ?body t = Some rest" by blast
  then show ?thesis
  proof cases
    case 1
    from www [OF 1(3)] obtain w kind run where
      "r = w @ ''instagram.com/'' @ kind @ ''/'' @ run @ rest" "w \<in> {[], ''www.''}"
      "kind \<in> {''p'', ''reel'', ''tv''}" "run \<noteq> []" "\<forall>c\<in>set run. shortcode_char c" by blast
    then show ?thesis using 1(1,2) by (intro exI [of _ l] exI [of _ w] exI [of _ kind] exI [of _ run]) simp
  next
    case 2
    from www [OF 2] obtain w kind run where
      "t = w @ ''instagram.com/'' @ kind @ ''/'' @ run @ rest" "w \<in> {[], ''www.''}"
      "kind \<in> {''p'', ''reel'', ''tv''}" "run \<noteq> []" "\<forall>c\<in>set run. shortcode_char c" by blast
    then show ?thesis by (intro exI [of _ "[]"] exI [of _ w] exI [of _ kind] exI [of _ run]) simp
  qed
qed

lemma story_pattern_shape:
  assumes "story_pattern t = Some rest"
  shows "\<exists>pre www tail. t = pre @ www @ ''instagram.com/'' @ tail @ rest
           \<and> pre \<in> {[], ''https://'', ''http://''} \<and> www \<in> {[], ''www.''}"
proof -
  let ?body = "lit ''instagram.com/stories/''
             (plus_class story_user_char (lit ''/'' (plus_class is_digit Some)))"
  have body: "\<exists>tail. s = ''instagram.com/'' @ tail @ rest" if "?body s = Some rest" for s
  proof -
    from that obtain r1 where r1: "s = ''instagram.com/stories/'' @ r1"
      "plus_class story_user_char (lit ''/'' (plus_class is_digit Some)) r1 = Some rest"
      unfolding lit_Some by blast
    from plus_class_Some [OF r1(2)] obtain usr r2 where u: "r1 = usr @ r2"
      "lit ''/'' (plus_class is_digit Some) r2 = Some rest" by blast
    from u(2) obtain r3 where r3: "r2 = ''/'' @ r3" "plus_class is_digit Some r3 = Some rest"
      unfolding lit_Some by blast
    from plus_class_Some [OF r3(2)] obtain ds r4 where "r3 = ds @ r4" "Some r4 = Some rest"
      by blast
    then show ?thesis using r1(1) u(1) r3(1)
      by (intro exI [of _ "''stories/'' @ usr @ ''/'' @ ds"]) simp
  qed
  have www: "\<exists>www tail. s = www @ ''instagram.com/'' @ tail @ rest \<and> www \<in> {[], ''www.''}"
    if w: "opt_alt [''www.''] ?body s = Some rest" for s
  proof -
    from opt_alt_Some [OF w] consider r where "s = ''www.'' @ r" "?body r = Some rest"
      | "?body s = Some rest" by auto
    then show ?thesis
    proof cases
      case 1
      from body [OF 1(2)] obtain tail where "r = ''instagram.com/'' @ tail @ rest" by blast
      then show ?thesis using 1(1) by (intro exI [of _ "''www.''"] exI [of _ tail]) simp
    next
      case 2
      from body [OF 2] obtain tail where "s = ''instagram.com/'' @ tail @ rest" by blast
      then show ?thesis by (intro exI [of _ "[]"] exI [of _ tail]) simp
    qed
  qed
  from opt_alt_Some [OF assms [unfolded story_pattern_def]]
  consider l r where "l \<in> set [''https://'', ''http://'']" "t = l @ r"
      "opt_alt [''www.''] ?body r = Some rest"
    | "opt_alt [''www.''] ?body t = Some rest" by blast
  then show ?thesis
  proof cases
    case 1
    from www [OF 1(3)] obtain w tail where
      "r = w @ ''instagram.com/'' @ tail @ rest" "w \<in> {[], ''www.''}" by blast
    then show ?thesis using 1(1,2) by (intro exI [of _ l] exI [of _ w] exI [of _ tail]) simp
  next
    case 2
    from www [OF 2] obtain w tail where
      "t = w @ ''instagram.com/'' @ tail @ rest" "w \<in> {[], ''www.''}" by blast
    then show ?thesis by (intro exI [of _ "[]"] exI [of _ w] exI [of _ tail]) simp
  qed
qed

lemmas host_defs = is_instagram_url_def is_ytdlp_supported_url_def with_scheme_def startswith_def
  endswith_def urlparse_netloc_def split_scheme_def strip_www_def lower_def lower_char_def
  in_range_def ord_def is_ascii_alpha_def scheme_char_def is_digit_def Let_def

lemma is_instagram_url_shape:
  assumes "pre \<in> {[], ''https://'', ''http://''}" "www \<in> {[], ''www.''}"
  shows "is_instagram_url (pre @ www @ ''instagram.com/'' @ tail)"
proof -
  have "is_instagram_url (''instagram.com/'' @ tail)"
    "is_instagram_url (''www.instagram.com/'' @ tail)"
    "is_instagram_url (''https://instagram.com/'' @ tail)"
    "is_instagram_url (''https://www.instagram.com/'' @ tail)"
    "is_instagram_url (''http://instagram.com/'' @ tail)"
    "is_instagram_url (''http://www.instagram.com/'' @ tail)"
    by (simp_all add: host_defs)
  then show ?thesis using assms by (elim insertE emptyE) simp_all
qed

lemma take_matched: "take (length (m @ rest) - length rest) (m @ rest) = m"
  by simp

lemma extract_instagram_url_host:
  assumes "extract_instagram_url text = Some u"
  shows "is_instagram_url u"
proof -
  have shape: "\<exists>pre www tail. u = pre @ www @ ''instagram.com/'' @ tail
           \<and> pre \<in> {[], ''https://'', ''http://''} \<and> www \<in> {[], ''www.''}"
  proof (cases "re_search post_pattern text")
    case (Some v)
    then have uv: "re_search post_pattern text = Some u"
      using assms by (simp add: extract_instagram_url_def)
    from re_search_Some [OF uv] obtain p t rest where
      t: "post_pattern t = Some rest" "u = take (length t - length rest) t" by blast
    from post_pattern_shape [OF t(1)] obtain pre www kind run where
      s: "t = pre @ www @ ''instagram.com/'' @ kind @ ''/'' @ run @ rest"
      "pre \<in> {[], ''https://'', ''http://''}" "www \<in> {[], ''www.''}" by blast
    have "t = (pre @ www @ ''instagram.com/'' @ kind @ ''/'' @ run) @ rest"
      unfolding s(1) by simp
    then have "u = pre @ www @ ''instagram.com/'' @ (kind @ ''/'' @ run)"
      unfolding t(2) by (simp only: take_matched)
    then show ?thesis using s(2,3) by blast
  next
    case None
    then have uv: "re_search story_pattern text = Some u"
      using assms by (simp add: extract_instagram_url_def)
    from re_search_Some [OF uv] obtain p t rest where
      t: "story_pattern t = Some rest" "u = take (length t - length rest) t" by blast
    from story_pattern_shape [OF t(1)] obtain pre www tail where
      s: "t = pre @ www @ ''instagram.com/'' @ tail @ rest"
      "pre \<in> {[], ''https://'', ''http://''}" "www \<in> {[], ''www.''}" by blast
    have "t = (pre @ www @ ''instagram.com/'' @ tail) @ rest"
      unfolding s(1) by simp
    then have "u = pre @ www @ ''instagram.com/'' @ tail"
      unfolding t(2) by (simp only: take_matched)
    then show ?thesis using s(2,3) by blast
  qed
  then show ?thesis using is_instagram_url_shape by blast
qed

lemma rstrip_keeps: "c \<in> set s \<Longrightarrow> c \<notin> set chars \<Longrightarrow> rstrip chars s \<noteq> []"
  by (auto simp: rstrip_def dropWhile_eq_Nil_conv)

lemma url_pattern_slash:
  assumes "url_pattern t = Some rest"
  shows "CHR ''/'' \<in> set (take (length t - length rest) t)"
proof -
  from alt_Some [OF assms [unfolded url_pattern_def]] obtain l r where
    l: "l \<in> set [''https://'', ''http://'']" "t = l @ r" "plus_class url_char Some r = Some rest"
    by blast
  from plus_class_Some [OF l(3)] obtain run r' where r: "r = run @ r'" "Some r' = Some rest"
    by blast
  then have "t = (l @ run) @ rest" using l(2) by simp
  then have "take (length t - length rest) t = l @ run" by (simp only: take_matched)
  moreover have "CHR ''/'' \<in> set l" using l(1) by auto
  ultimately show ?thesis by simp
qed

lemma extract_media_url_nonempty: "extract_media_url text = Some url \<Longrightarrow> url \<noteq> []"
proof -
  assume a: "extract_media_url text = Some url"
  then obtain u where u: "re_search url_pattern text = Some u" "url = rstrip ''.,;:!?'' u"
    by (auto simp: extract_media_url_def split: option.splits)
  from re_search_Some [OF u(1)] obtain p t rest where
    "url_pattern t = Some rest" "u = take (length t - length rest) t" by blast
  then have "CHR ''/'' \<in> set u" using url_pattern_slash by blast
  then show ?thesis unfolding u(2) by (rule rstrip_keeps) simp
qed

lemma is_ytdlp_supported_url_empty: "\<not> is_ytdlp_supported_url []"
  by (simp add: is_ytdlp_supported_url_def)

lemma message_router_cases:
  "(message_router text = DownloadHandler) = (extract_instagram_url text \<noteq> None)"
  "(message_router text = YtdlpDownloadHandler) =
     (extract_instagram_url text = None \<and> extract_media_url text \<noteq> None)"
  "(message_router text = InvalidCommand) =
     (extract_instagram_url text = None \<and> extract_media_url text = None)"
  using extract_media_url_nonempty [of "text"]
  by (auto simp: message_router_def is_ytdlp_supported_url_empty split: option.splits)

lemma netloc_of_url:
  assumes h: "host_text h" and r: "after_host r" and s: "scheme \<in> {''https://'', ''http://''}"
  shows "urlparse_netloc (scheme @ h @ r) = Inr h"
proof -
  let ?P = "\<lambda>c. c \<notin> {CHR 0x09, CHR 0x0A, CHR 0x0D}"
  let ?Q = "\<lambda>c. c \<notin> {CHR ''/'', CHR ''?'', CHR ''#''}"
  have fh: "filter ?P h = h"
    using h by (auto simp: host_text_def list_all_iff filter_id_conv)
  have th: "takeWhile ?Q (h @ filter ?P r) = h"
  proof -
    have "takeWhile ?Q (filter ?P r) = []"
      using r by (cases r) (auto simp: after_host_def)
    moreover have "\<forall>c\<in>set h. ?Q c" using h by (auto simp: host_text_def list_all_iff)
    ultimately show ?thesis by (simp add: takeWhile_append2)
  qed
  have nb: "CHR ''['' \<notin> set h" "CHR '']'' \<notin> set h"
    using h by (auto simp: host_text_def list_all_iff)
  from s consider "scheme = ''https://''" | "scheme = ''http://''" by auto
  then show ?thesis
  proof cases
    case 1
    then show ?thesis using fh th nb
      by (simp add: urlparse_netloc_def split_scheme_def ord_def is_ascii_alpha_def in_range_def
          scheme_char_def is_digit_def Let_def)
  next
    case 2
    then show ?thesis using fh th nb
      by (simp add: urlparse_netloc_def split_scheme_def ord_def is_ascii_alpha_def in_range_def
          scheme_char_def is_digit_def Let_def)
  qed
qed

lemma with_scheme_url:
  "scheme \<in> {''https://'', ''http://''} \<Longrightarrow> with_scheme (scheme @ x) = scheme @ x"
  by (auto simp: with_scheme_def startswith_def)

lemma allow_list_by_host:
  assumes "host_text h" "after_host r" "scheme \<in> {''https://'', ''http://''}"
  shows "is_ytdlp_supported_url (scheme @ h @ r) =
           (\<exists>d\<in>set supported_domains. strip_www (lower h) = d
                \<or> (\<exists>sub. strip_www (lower h) = sub @ ''.'' @ d))"
    and "is_instagram_url (scheme @ h @ r) = (strip_www (lower h) = ''instagram.com'')"
proof -
  have ne: "scheme @ h @ r \<noteq> []" using assms(3) by auto
  have n: "urlparse_netloc (with_scheme (scheme @ h @ r)) = Inr h"
    using netloc_of_url [OF assms] with_scheme_url [OF assms(3)] by simp
  show "is_ytdlp_supported_url (scheme @ h @ r) =
           (\<exists>d\<in>set supported_domains. strip_www (lower h) = d
                \<or> (\<exists>sub. strip_www (lower h) = sub @ ''.'' @ d))"
    unfolding is_ytdlp_supported_url_def
    by (simp only: ne n if_False sum.case Let_def list_ex_iff endswith_def suffix_def)
       (auto simp del: set_simps)
  show "is_instagram_url (scheme @ h @ r) = (strip_www (lower h) = ''instagram.com'')"
    unfolding is_instagram_url_def by (simp only: ne n if_False sum.case)
qed

lemma www_split: "''www.'' = a @ CHR ''.'' # us \<Longrightarrow> a = ''www'' \<and> us = []"
  by (auto simp: Cons_eq_append_conv)

lemma strip_www_dot:
  "strip_www (a @ CHR ''.'' # b) = a @ CHR ''.'' # b
   \<or> (\<exists>a'. strip_www (a @ CHR ''.'' # b) = a' @ CHR ''.'' # b)
   \<or> strip_www (a @ CHR ''.'' # b) = b"
proof (cases "prefix ''www.'' (a @ CHR ''.'' # b)")
  case False
  then show ?thesis by (simp add: strip_www_def startswith_def)
next
  case True
  then have sw: "strip_www (a @ CHR ''.'' # b) = drop 4 (a @ CHR ''.'' # b)"
    by (simp add: strip_www_def startswith_def)
  from True consider "prefix ''www.'' a"
    | us where "''www.'' = a @ us" "us \<noteq> []" "prefix us (CHR ''.'' # b)"
    unfolding prefix_append by (cases "prefix ''www.'' a") auto
  then show ?thesis
  proof cases
    case 1
    then obtain a' where "a = ''www.'' @ a'" by (auto simp: prefix_def)
    then show ?thesis unfolding sw by auto
  next
    case 2
    then obtain us' where "us = CHR ''.'' # us'" by (cases us) auto
    with 2(1) have "a = ''www''" using www_split by blast
    then show ?thesis unfolding sw by simp
  qed
qed

lemma lower_append: "lower (a @ b) = lower a @ lower b"
  by (simp add: lower_def)

lemma host_text_append: "host_text (a @ b) = (host_text a \<and> host_text b)"
  by (simp add: host_text_def)

lemma supported_domains_plain:
  "\<forall>d\<in>set supported_domains. lower d = d \<and> strip_www d = d \<and> host_text d"
  by (simp add: supported_domains_def lower_def lower_char_def in_range_def ord_def
      strip_www_def startswith_def host_text_def)

lemma evil_not_allowed:
  assumes "suffix ''evil.com'' y"
  shows "y \<notin> set supported_domains"
    and "\<not> (\<exists>d\<in>set supported_domains. \<exists>sub. y = sub @ ''.'' @ d)"
    and "y \<noteq> ''instagram.com''"
proof -
  have a: "\<forall>d\<in>set supported_domains. \<not> suffix ''evil.com'' d \<and> \<not> suffix (''.'' @ d) ''evil.com''"
    by (simp add: supported_domains_def suffix_to_prefix)
  show "y \<notin> set supported_domains" using assms a by blast
  show "\<not> (\<exists>d\<in>set supported_domains. \<exists>sub. y = sub @ ''.'' @ d)"
  proof
    assume "\<exists>d\<in>set supported_domains. \<exists>sub. y = sub @ ''.'' @ d"
    then obtain d sub where d: "d \<in> set supported_domains" "y = sub @ ''.'' @ d" by blast
    then have "suffix (''.'' @ d) y" by (simp add: suffix_def)
    with assms have "suffix (''.'' @ d) ''evil.com'' \<or> suffix ''evil.com'' (''.'' @ d)"
      using suffix_same_cases by blast
    moreover have "suffix ''evil.com'' (''.'' @ d) \<Longrightarrow> suffix ''evil.com'' d"
      by (auto simp: suffix_Cons)
    ultimately show False using a d(1) by blast
  qed
  show "y \<noteq> ''instagram.com''" using assms by (auto simp: suffix_to_prefix)
qed

lemma look_alike_rejected:
  assumes "host_text h" "after_host r" "scheme \<in> {''https://'', ''http://''}"
  shows "\<not> is_ytdlp_supported_url (scheme @ h @ ''.evil.com'' @ r)"
    and "\<not> is_instagram_url (scheme @ h @ ''.evil.com'' @ r)"
proof -
  let ?h = "h @ ''.evil.com''"
  have ht: "host_text ?h" using assms(1) by (simp add: host_text_def)
  have lw: "lower ?h = lower h @ CHR ''.'' # ''evil.com''"
    by (simp add: lower_def lower_char_def in_range_def ord_def)
  have "suffix ''evil.com'' (strip_www (lower ?h))"
    unfolding lw using strip_www_dot [of "lower h" "''evil.com''"]
    by (auto simp: suffix_def)
  note e = evil_not_allowed [OF this]
  have "\<not> is_ytdlp_supported_url (scheme @ ?h @ r)"
    unfolding allow_list_by_host(1) [OF ht assms(2,3)] using e by blast
  then show "\<not> is_ytdlp_supported_url (scheme @ h @ ''.evil.com'' @ r)" by simp
  have "\<not> is_instagram_url (scheme @ ?h @ r)"
    unfolding allow_list_by_host(2) [OF ht assms(2,3)] using e by blast
  then show "\<not> is_instagram_url (scheme @ h @ ''.evil.com'' @ r)" by simp
qed

lemma subdomain_accepted:
  assumes "host_text sub" "after_host r" "scheme \<in> {''https://'', ''http://''}"
    and d: "d \<in> set supported_domains"
  shows "is_ytdlp_supported_url (scheme @ sub @ ''.'' @ d @ r)"
    and "is_ytdlp_supported_url (scheme @ d @ r)"
proof -
  from supported_domains_plain d have pl: "lower d = d" "strip_www d = d" "host_text d" by auto
  let ?h = "sub @ ''.'' @ d"
  have ht: "host_text ?h" using assms(1) pl(3) by (simp add: host_text_def)
  have lw: "lower ?h = lower sub @ CHR ''.'' # d"
    using pl(1) by (simp add: lower_def lower_char_def in_range_def ord_def)
  have "strip_www (lower ?h) = d \<or> (\<exists>s. strip_www (lower ?h) = s @ ''.'' @ d)"
    unfolding lw using strip_www_dot [of "lower sub" d] by auto
  then have "is_ytdlp_supported_url (scheme @ ?h @ r)"
    unfolding allow_list_by_host(1) [OF ht assms(2,3)] using d by blast
  then show "is_ytdlp_supported_url (scheme @ sub @ ''.'' @ d @ r)" by simp
  show "is_ytdlp_supported_url (scheme @ d @ r)"
    unfolding allow_list_by_host(1) [OF pl(3) assms(2,3)] using d pl by auto
qed

text \<open>
  Claim C1, as stated, fails. A link to the look-alike host \<open>instagram.com.evil.com\<close> is
  routed to the generic handler, although the allow-list test rejects it: the last branch
  of the router sends every text with a link there. A link to \<open>evil.com\<close> with
  \<open>instagram.com/p/X\<close> in its path is routed to the Instagram handler, because the pattern
  is searched anywhere in the text; the link that the handler then extracts is
  \<open>instagram.com/p/X\<close>.
\<close>

theorem router_takes_look_alikes:
  "message_router ''https://instagram.com.evil.com/video'' = YtdlpDownloadHandler
   \<and> is_ytdlp_supported_url ''https://instagram.com.evil.com/video'' = False
   \<and> message_router ''https://evil.com/instagram.com/p/X'' = DownloadHandler
   \<and> extract_instagram_url ''https://evil.com/instagram.com/p/X'' = Some ''instagram.com/p/X''"
  by code_simp

text \<open>
  Claim C1, amended. The router calls the Instagram handler exactly for a text in which
  the post or story pattern occurs, and the link extracted from such a text is always an
  Instagram link by \<open>is_instagram_url\<close> (its host is \<open>instagram.com\<close> with or without
  \<open>www.\<close>); it calls the generic handler exactly for every other text with an http(s)
  link in it, allow-listed or not; and it refuses the texts without a link. The two
  host tests themselves decide by the host alone: for a link made of a scheme, a host
  text \<open>h\<close> and a rest that starts a path, a query or a fragment,
  \<open>is_ytdlp_supported_url\<close> holds exactly when \<open>h\<close> (the network location that
  \<open>urlparse\<close> returns), in lower case and without a leading
  \<open>www.\<close>, is an allow-listed domain or ends with a dot and an allow-listed domain, and
  \<open>is_instagram_url\<close> exactly when it is \<open>instagram.com\<close>. So both reject every host
  \<open>h.evil.com\<close>, whatever \<open>h\<close> and the path are, and \<open>is_ytdlp_supported_url\<close> accepts every
  allow-listed domain and every subdomain of one.
\<close>

theorem link_classification:
  "(message_router text = DownloadHandler) = (extract_instagram_url text \<noteq> None)
   \<and> (message_router text = YtdlpDownloadHandler) =
        (extract_instagram_url text = None \<and> extract_media_url text \<noteq> None)
   \<and> (message_router text = InvalidCommand) =
        (extract_instagram_url text = None \<and> extract_media_url text = None)
   \<and> (extract_instagram_url text = Some u \<longrightarrow> is_instagram_url u)
   \<and> (host_text h \<and> after_host r \<and> scheme \<in> {''https://'', ''http://''} \<longrightarrow>
        is_ytdlp_supported_url (scheme @ h @ r) =
          (\<exists>d\<in>set supported_domains. strip_www (lower h) = d
               \<or> (\<exists>sub. strip_www (lower h) = sub @ ''.'' @ d))
        \<and> is_instagram_url (scheme @ h @ r) = (strip_www (lower h) = ''instagram.com'')
        \<and> \<not> is_ytdlp_supported_url (scheme @ h @ ''.evil.com'' @ r)
        \<and> \<not> is_instagram_url (scheme @ h @ ''.evil.com'' @ r)
        \<and> (\<forall>d\<in>set supported_domains.
              is_ytdlp_supported_url (scheme @ h @ ''.'' @ d @ r)
              \<and> is_ytdlp_supported_url (scheme @ d @ r)))"
  using message_router_cases [of "text"] extract_instagram_url_host [of "text" u]
    allow_list_by_host [of h r scheme] look_alike_rejected [of h r scheme]
    subdomain_accepted [of h r scheme]
  by blast

text \<open>The witness: the examples of the specification and of \<open>test_bot.py\<close>.\<close>

theorem link_classification_witness:
  "message_router ''Check https://instagram.com/p/ABC123/ out'' = DownloadHandler
   \<and> is_instagram_url ''https://instagram.com/p/ABC123''
   \<and> is_ytdlp_supported_url ''https://music.youtube.com/watch?v=abc''
   \<and> \<not> is_ytdlp_supported_url ''https://malicious-youtube.com.evil.com/''
   \<and> \<not> is_instagram_url ''https://instagram.com.evil.com/p/X''"
proof -
  have x: "extract_instagram_url ''Check https://instagram.com/p/ABC123/ out'' =
             Some ''https://instagram.com/p/ABC123''"
    by code_simp
  have s: "''https://'' \<in> {''https://'', ''http://''}" by simp
  have h1: "host_text ''music'' \<and> after_host ''/watch?v=abc''"
    by (simp add: host_text_def after_host_def)
  have h2: "host_text ''malicious-youtube.com'' \<and> after_host ''/''"
    by (simp add: host_text_def after_host_def)
  have h3: "host_text ''instagram.com'' \<and> after_host ''/p/X''"
    by (simp add: host_text_def after_host_def)
  have d: "''youtube.com'' \<in> set supported_domains"
    by (simp add: supported_domains_def)
  from link_classification
    [of "''Check https://instagram.com/p/ABC123/ out''" "''https://instagram.com/p/ABC123''"
        "''music''" "''/watch?v=abc''" "''https://''"] x h1 s d
  have 1: "message_router ''Check https://instagram.com/p/ABC123/ out'' = DownloadHandler"
    and 2: "is_instagram_url ''https://instagram.com/p/ABC123''"
    and 3: "is_ytdlp_supported_url (''https://'' @ ''music'' @ ''.'' @ ''youtube.com'' @ ''/watch?v=abc'')"
    by blast+
  from link_classification
    [of "[]" "[]" "''malicious-youtube.com''" "''/''" "''https://''"] h2 s
  have 4: "\<not> is_ytdlp_supported_url (''https://'' @ ''malicious-youtube.com'' @ ''.evil.com'' @ ''/'')"
    by blast
  from link_classification
    [of "[]" "[]" "''instagram.com''" "''/p/X''" "''https://''"] h3 s
  have 5: "\<not> is_instagram_url (''https://'' @ ''instagram.com'' @ ''.evil.com'' @ ''/p/X'')"
    by blast
  from 1 2 3 4 5 show ?thesis by simp
qed

end
